theory Spec2Isabelle
  imports
    Main
    "HOL-Library.Char_ord"
    "HOL-Library.List_Lexorder"
    "HOL-Library.Product_Lexorder"
    "HOL-Library.Sublist"
    "HOL-Library.Multiset"
begin

section \<open>Strings and paths\<close>

text \<open>
  A Python \<open>str\<close> is modelled as a \<open>string\<close> whose elements are single characters
  (code points below 256), so \<open>length\<close>, \<open>take\<close> and \<open>drop\<close> count what Python's
  \<open>len\<close> and slices count. Strings are compared as Python compares them: character by
  character, by code point (the lexicographic order of \<open>List_Lexorder\<close> over \<open>Char_ord\<close>).
  A Python \<open>bytes\<close> value is a list of \<open>char\<close> as well, one element per byte.
\<close>

type_synonym path = string
type_synonym bytes = "char list"

text \<open>\<open>s.startswith(p)\<close> and \<open>s.endswith(p)\<close>.\<close>

definition startswith :: "string \<Rightarrow> string \<Rightarrow> bool" where
  "startswith s p = prefix p s"

definition endswith :: "string \<Rightarrow> string \<Rightarrow> bool" where
  "endswith s p = suffix p s"

text \<open>
  \<open>os.path.join(a, b)\<close>, \<open>os.path.basename\<close> and \<open>os.path.dirname\<close> as \<open>posixpath\<close>
  defines them: \<open>join\<close> restarts at an absolute second component and inserts the separator
  unless the first component is empty or already ends with it; \<open>basename\<close> is what follows
  the last separator; \<open>dirname\<close> is what precedes it, with trailing separators removed
  unless it consists of separators only.
\<close>

definition join :: "path \<Rightarrow> path \<Rightarrow> path" where
  "join a b =
     (if startswith b ''/'' then b
      else if a = [] \<or> endswith a ''/'' then a @ b
      else a @ ''/'' @ b)"

definition basename :: "path \<Rightarrow> path" where
  "basename p = rev (takeWhile (\<lambda>c. c \<noteq> CHR ''/'') (rev p))"

definition rstrip_sep :: "path \<Rightarrow> path" where
  "rstrip_sep p = rev (dropWhile (\<lambda>c. c = CHR ''/'') (rev p))"

definition dirname :: "path \<Rightarrow> path" where
  "dirname p =
     (let head = rev (dropWhile (\<lambda>c. c \<noteq> CHR ''/'') (rev p))
      in if head \<noteq> [] \<and> head \<noteq> replicate (length head) CHR ''/''
         then rstrip_sep head else head)"

text \<open>
  \<open>str.strip()\<close> removes leading and trailing white space; below code point 256 the
  characters Python counts as white space are 9 to 13, 28 to 32, 133 and 160.
\<close>

definition isspace :: "char \<Rightarrow> bool" where
  "isspace c =
     (let n = (of_char c :: nat)
      in (9 \<le> n \<and> n \<le> 13) \<or> (28 \<le> n \<and> n \<le> 32) \<or> n = 133 \<or> n = 160)"

definition strip :: "string \<Rightarrow> string" where
  "strip s = rev (dropWhile isspace (rev (dropWhile isspace s)))"

text \<open>
  \<open>str.lower()\<close> below code point 256: the letters A to Z and the Latin-1 capitals
  192 to 222 (without the multiplication sign 215) move up by 32.
\<close>

definition lower_char :: "char \<Rightarrow> char" where
  "lower_char c =
     (let n = (of_char c :: nat)
      in if (65 \<le> n \<and> n \<le> 90) \<or> (192 \<le> n \<and> n \<le> 222 \<and> n \<noteq> 215)
         then char_of (n + 32) else c)"

definition lower :: "string \<Rightarrow> string" where
  "lower s = map lower_char s"

text \<open>
  \<open>xs.sort(key=k, reverse=True)\<close>: Python sorts stably, and with \<open>reverse=True\<close>
  elements with equal keys still keep their original order, as if the list were
  reversed, sorted stably in ascending order and reversed again.
\<close>

definition sort_reverse :: "('a \<Rightarrow> 'k::linorder) \<Rightarrow> 'a list \<Rightarrow> 'a list" where
  "sort_reverse k xs = rev (sort_key k (rev xs))"

section \<open>Items\<close>

text \<open>
  \<open>FileSystemItem\<close> with its two subclasses \<open>FileItem\<close> and \<open>FolderItem\<close>, whose
  \<open>__post_init__\<close> fixes \<open>item_type\<close> to \<open>'file'\<close> and \<open>'folder'\<close>: the field decides
  every \<open>isinstance\<close> test of the program.
\<close>

datatype item_type = File | Folder

record FileSystemItem =
  name :: string
  full_path :: path
  item_type :: item_type

definition FileItem :: "string \<Rightarrow> path \<Rightarrow> FileSystemItem" where
  "FileItem n p = \<lparr>name = n, full_path = p, item_type = File\<rparr>"

definition FolderItem :: "string \<Rightarrow> path \<Rightarrow> FileSystemItem" where
  "FolderItem n p = \<lparr>name = n, full_path = p, item_type = Folder\<rparr>"

definition display_name :: "FileSystemItem \<Rightarrow> string" where
  "display_name i =
     (if item_type i = Folder \<and> startswith (name i) ''-__'' then drop 3 (name i)
      else name i)"

definition password_file_path :: "FileSystemItem \<Rightarrow> path" where
  "password_file_path i = join (dirname (join (full_path i) (name i))) ''content.bin''"

definition content_file_path :: "FileSystemItem \<Rightarrow> path" where
  "content_file_path i = join (dirname (join (full_path i) (name i))) ''content.html''"

section \<open>The recency and pin indexes\<close>

text \<open>
  \<open>HistoryItem\<close> and \<open>PinnedItem\<close> of \<open>dashboard.py\<close>. Their fields carry the source's
  names with a prefix, since the three records share one name space. A manager's state
  is its list of records; the write-through to \<open>history.json\<close> and \<open>pinned.json\<close>, whose
  failures the managers swallow, is not part of the model. The time stamp that
  \<open>datetime.now().isoformat()\<close> produces is an argument of each operation.
\<close>

record HistoryItem =
  h_name :: string
  h_full_path :: path
  last_accessed :: string

record PinnedItem =
  p_name :: string
  p_full_path :: path
  pinned_at :: string

text \<open>\<open>HistoryItem\<close> of \<open>items.py\<close> has a fourth field, the access counter.\<close>

record CountedHistoryItem = HistoryItem +
  access_count :: int

text \<open>
  The search loop of \<open>add_file_to_history\<close> stops at the first record with the item's
  path; that record alone is updated in place.
\<close>

fun touch_existing :: "path \<Rightarrow> string \<Rightarrow> HistoryItem list \<Rightarrow> HistoryItem list option" where
  "touch_existing p t [] = None"
| "touch_existing p t (r # rs) =
     (if h_full_path r = p then Some (r\<lparr>last_accessed := t\<rparr> # rs)
      else map_option ((#) r) (touch_existing p t rs))"

definition add_file_to_history ::
  "HistoryItem list \<Rightarrow> FileSystemItem \<Rightarrow> string \<Rightarrow> HistoryItem list" where
  "add_file_to_history history_items file_item current_time =
     (let items =
        (case touch_existing (full_path file_item) current_time history_items of
           Some updated \<Rightarrow> updated
         | None \<Rightarrow> history_items @
             [\<lparr>h_name = display_name file_item, h_full_path = full_path file_item,
               last_accessed = current_time\<rparr>])
      in take 50 (sort_reverse last_accessed items))"

text \<open>The same operation in \<open>items.py\<close>, which also counts the accesses.\<close>

fun touch_existing_counted ::
  "path \<Rightarrow> string \<Rightarrow> CountedHistoryItem list \<Rightarrow> CountedHistoryItem list option" where
  "touch_existing_counted p t [] = None"
| "touch_existing_counted p t (r # rs) =
     (if h_full_path r = p
      then Some (r\<lparr>last_accessed := t, access_count := access_count r + 1\<rparr> # rs)
      else map_option ((#) r) (touch_existing_counted p t rs))"

definition add_file_to_history_counted ::
  "CountedHistoryItem list \<Rightarrow> FileSystemItem \<Rightarrow> string \<Rightarrow> CountedHistoryItem list" where
  "add_file_to_history_counted history_items file_item current_time =
     (let items =
        (case touch_existing_counted (full_path file_item) current_time history_items of
           Some updated \<Rightarrow> updated
         | None \<Rightarrow> history_items @
             [\<lparr>h_name = display_name file_item, h_full_path = full_path file_item,
               last_accessed = current_time, access_count = 1\<rparr>])
      in take 50 (sort_reverse last_accessed items))"

definition remove_item :: "HistoryItem list \<Rightarrow> path \<Rightarrow> HistoryItem list" where
  "remove_item history_items file_path = filter (\<lambda>r. h_full_path r \<noteq> file_path) history_items"

text \<open>
  \<open>HistoryManager.update_path\<close>: the loop visits every record and rewrites those whose
  path equals \<open>old_path\<close>.
\<close>

definition history_update_path :: "HistoryItem list \<Rightarrow> path \<Rightarrow> path \<Rightarrow> HistoryItem list" where
  "history_update_path history_items old_path new_path =
     map (\<lambda>r. if h_full_path r = old_path
               then (if h_name r = basename old_path
                     then r\<lparr>h_full_path := new_path, h_name := basename new_path\<rparr>
                     else r\<lparr>h_full_path := new_path\<rparr>)
               else r) history_items"

definition is_pinned :: "PinnedItem list \<Rightarrow> path \<Rightarrow> bool" where
  "is_pinned pinned_items file_path = (\<exists>r \<in> set pinned_items. p_full_path r = file_path)"

definition pin_file_item ::
  "PinnedItem list \<Rightarrow> FileSystemItem \<Rightarrow> string \<Rightarrow> bool \<times> PinnedItem list" where
  "pin_file_item pinned_items file_item current_time =
     (if is_pinned pinned_items (full_path file_item) then (False, pinned_items)
      else (True,
            take 20 (sort_reverse pinned_at
              (pinned_items @
                [\<lparr>p_name = display_name file_item, p_full_path = full_path file_item,
                  pinned_at = current_time\<rparr>]))))"

definition unpin_file :: "PinnedItem list \<Rightarrow> path \<Rightarrow> PinnedItem list" where
  "unpin_file pinned_items file_path = filter (\<lambda>r. p_full_path r \<noteq> file_path) pinned_items"

definition pin_update_path :: "PinnedItem list \<Rightarrow> path \<Rightarrow> path \<Rightarrow> PinnedItem list" where
  "pin_update_path pinned_items old_path new_path =
     map (\<lambda>r. if p_full_path r = old_path
               then (if p_name r = basename old_path
                     then r\<lparr>p_full_path := new_path, p_name := basename new_path\<rparr>
                     else r\<lparr>p_full_path := new_path\<rparr>)
               else r) pinned_items"

text \<open>Sequences of touches and of pins, each with its own time stamp.\<close>

definition touch_sequence ::
  "CountedHistoryItem list \<Rightarrow> (FileSystemItem \<times> string) list \<Rightarrow> CountedHistoryItem list" where
  "touch_sequence h touches = foldl (\<lambda>h (i, t). add_file_to_history_counted h i t) h touches"

definition pin_sequence ::
  "PinnedItem list \<Rightarrow> (FileSystemItem \<times> string) list \<Rightarrow> PinnedItem list" where
  "pin_sequence ps pins = foldl (\<lambda>ps (i, t). snd (pin_file_item ps i t)) ps pins"

section \<open>The file system\<close>

text \<open>
  The file system is a tree of nodes: a regular file with its content, a regular file
  that the process is not permitted to read, or a directory with its entries in the
  order \<open>os.scandir\<close> lists them. Its state is the root directory together with the
  working directory of the process. A path is resolved component by component, an
  absolute path from the root and any other from the working directory; empty
  components (a doubled or trailing separator) are skipped. Other permissions, links
  and the special names \<open>.\<close> and \<open>..\<close> are not modelled. The operations below stand for
  the calls of \<open>os\<close> and \<open>shutil\<close> that the program makes; each raises by returning
  \<open>Inl\<close>.
\<close>

datatype node = Reg bytes | Unreadable | Dir "(string \<times> node) list"

datatype os_error =
  FileNotFoundError | NotADirectoryError | IsADirectoryError | FileExistsError
  | PermissionError | InvalidArgument | ShutilError | BinasciiError

text \<open>
  \<open>str(e)\<close> of a caught exception. The real text carries the error number and the
  paths; the model keeps the name of the exception class.
\<close>

fun str :: "os_error \<Rightarrow> string" where
  "str FileNotFoundError = ''FileNotFoundError''"
| "str NotADirectoryError = ''NotADirectoryError''"
| "str IsADirectoryError = ''IsADirectoryError''"
| "str FileExistsError = ''FileExistsError''"
| "str PermissionError = ''PermissionError''"
| "str InvalidArgument = ''InvalidArgument''"
| "str ShutilError = ''ShutilError''"
| "str BinasciiError = ''BinasciiError''"

fun split_sep :: "path \<Rightarrow> string list" where
  "split_sep [] = [[]]"
| "split_sep (c # cs) =
     (if c = CHR ''/'' then [] # split_sep cs
      else (case split_sep cs of [] \<Rightarrow> [[c]] | w # ws \<Rightarrow> (c # w) # ws))"

definition components :: "path \<Rightarrow> string list" where
  "components p = filter (\<lambda>w. w \<noteq> []) (split_sep p)"

fun lookup :: "node \<Rightarrow> string list \<Rightarrow> node option" where
  "lookup n [] = Some n"
| "lookup (Dir es) (c # cs) =
     (case map_of es c of None \<Rightarrow> None | Some n \<Rightarrow> lookup n cs)"
| "lookup n (c # cs) = None"

fun set_entry :: "string \<Rightarrow> node \<Rightarrow> (string \<times> node) list \<Rightarrow> (string \<times> node) list" where
  "set_entry c v [] = [(c, v)]"
| "set_entry c v (e # es) = (if fst e = c then (c, v) # es else e # set_entry c v es)"

fun remove_at :: "node \<Rightarrow> string list \<Rightarrow> node" where
  "remove_at n [] = n"
| "remove_at (Dir es) [c] = Dir (filter (\<lambda>e. fst e \<noteq> c) es)"
| "remove_at (Dir es) (c # cs) =
     (case map_of es c of
        None \<Rightarrow> Dir es
      | Some n \<Rightarrow> Dir (set_entry c (remove_at n cs) es))"
| "remove_at n (c # cs) = n"

text \<open>
  \<open>put_at\<close> places a node below an existing parent directory; \<open>put_parents\<close> creates
  the missing directories on the way, as \<open>os.makedirs\<close> does.
\<close>

fun put_at :: "node \<Rightarrow> string list \<Rightarrow> node \<Rightarrow> node option" where
  "put_at n [] v = None"
| "put_at (Dir es) [c] v = Some (Dir (set_entry c v es))"
| "put_at (Dir es) (c # cs) v =
     (case map_of es c of
        None \<Rightarrow> None
      | Some n \<Rightarrow> map_option (\<lambda>n'. Dir (set_entry c n' es)) (put_at n cs v))"
| "put_at n (c # cs) v = None"

fun put_parents :: "node \<Rightarrow> string list \<Rightarrow> node \<Rightarrow> node option" where
  "put_parents n [] v = None"
| "put_parents (Dir es) [c] v = Some (Dir (set_entry c v es))"
| "put_parents (Dir es) (c # cs) v =
     map_option (\<lambda>n'. Dir (set_entry c n' es))
       (put_parents (case map_of es c of None \<Rightarrow> Dir [] | Some n \<Rightarrow> n) cs v)"
| "put_parents n (c # cs) v = None"

record filesystem =
  root :: node
  cwd :: "string list"

text \<open>
  The components of a path counted from the root, and the node the path names; the
  empty path names nothing.
\<close>

definition locate :: "filesystem \<Rightarrow> path \<Rightarrow> string list option" where
  "locate fs p =
     (if p = [] then None
      else if startswith p ''/'' then Some (components p)
      else Some (cwd fs @ components p))"

definition resolve :: "filesystem \<Rightarrow> path \<Rightarrow> node option" where
  "resolve fs p = (case locate fs p of None \<Rightarrow> None | Some cs \<Rightarrow> lookup (root fs) cs)"

definition path_exists :: "filesystem \<Rightarrow> path \<Rightarrow> bool" where
  "path_exists fs p = (resolve fs p \<noteq> None)"

text \<open>
  \<open>os.rename(src, dst)\<close>. The program calls it only after \<open>os.path.exists(dst)\<close> was
  false, so the replacement of an existing destination is not modelled and is reported
  as an error. A directory cannot be renamed into itself.
\<close>

definition os_rename :: "filesystem \<Rightarrow> path \<Rightarrow> path \<Rightarrow> os_error + filesystem" where
  "os_rename fs src dst =
     (case (locate fs src, locate fs dst) of
        (Some s, Some d) \<Rightarrow>
          (case lookup (root fs) s of
             None \<Rightarrow> Inl FileNotFoundError
           | Some n \<Rightarrow>
               if path_exists fs dst then Inl FileExistsError
               else if prefix s d then Inl InvalidArgument
               else (case put_at (remove_at (root fs) s) d n of
                       None \<Rightarrow> Inl FileNotFoundError
                     | Some r \<Rightarrow> Inr (fs\<lparr>root := r\<rparr>)))
      | _ \<Rightarrow> Inl FileNotFoundError)"

text \<open>
  \<open>shutil.move(src, dst)\<close>, again for a destination that does not exist: it renames,
  and where the rename fails it copies a directory tree (creating the parents of the
  destination) and removes the source, unless the destination lies inside the source.
\<close>

definition shutil_move :: "filesystem \<Rightarrow> path \<Rightarrow> path \<Rightarrow> os_error + filesystem" where
  "shutil_move fs src dst =
     (case os_rename fs src dst of
        Inr fs' \<Rightarrow> Inr fs'
      | Inl e \<Rightarrow>
          (case (locate fs src, locate fs dst) of
             (Some s, Some d) \<Rightarrow>
               (case lookup (root fs) s of
                  Some (Dir es) \<Rightarrow>
                    if path_exists fs dst then Inl FileExistsError
                    else if prefix s d then Inl ShutilError
                    else (case put_parents (remove_at (root fs) s) d (Dir es) of
                            None \<Rightarrow> Inl NotADirectoryError
                          | Some r \<Rightarrow> Inr (fs\<lparr>root := r\<rparr>))
                | _ \<Rightarrow> Inl e)
           | _ \<Rightarrow> Inl e))"

definition rmtree :: "filesystem \<Rightarrow> path \<Rightarrow> os_error + filesystem" where
  "rmtree fs p =
     (case locate fs p of
        None \<Rightarrow> Inl FileNotFoundError
      | Some cs \<Rightarrow>
          (case lookup (root fs) cs of
             None \<Rightarrow> Inl FileNotFoundError
           | Some (Dir es) \<Rightarrow> Inr (fs\<lparr>root := remove_at (root fs) cs\<rparr>)
           | Some n \<Rightarrow> Inl NotADirectoryError))"

text \<open>\<open>os.scandir(p)\<close>: the name and the path (\<open>join p name\<close>) of every entry.\<close>

definition scandir :: "filesystem \<Rightarrow> path \<Rightarrow> os_error + (string \<times> path) list" where
  "scandir fs p =
     (case resolve fs p of
        None \<Rightarrow> Inl FileNotFoundError
      | Some (Dir es) \<Rightarrow> Inr (map (\<lambda>e. (fst e, join p (fst e))) es)
      | Some n \<Rightarrow> Inl NotADirectoryError)"

definition makedirs :: "filesystem \<Rightarrow> path \<Rightarrow> os_error + filesystem" where
  "makedirs fs p =
     (case locate fs p of
        None \<Rightarrow> Inl FileNotFoundError
      | Some cs \<Rightarrow>
          (case lookup (root fs) cs of
             None \<Rightarrow>
               (case put_parents (root fs) cs (Dir []) of
                  None \<Rightarrow> Inl NotADirectoryError
                | Some r \<Rightarrow> Inr (fs\<lparr>root := r\<rparr>))
           | Some (Dir es) \<Rightarrow> Inr fs
           | Some n \<Rightarrow> Inl FileExistsError))"

text \<open>
  Reading a whole file and writing one (\<open>open(p, 'rb')\<close>, \<open>open(p, 'wb')\<close>). Writing
  creates the file in an existing directory or replaces its content.
\<close>

definition read_file :: "filesystem \<Rightarrow> path \<Rightarrow> os_error + bytes" where
  "read_file fs p =
     (case resolve fs p of
        None \<Rightarrow> Inl FileNotFoundError
      | Some (Dir es) \<Rightarrow> Inl IsADirectoryError
      | Some Unreadable \<Rightarrow> Inl PermissionError
      | Some (Reg b) \<Rightarrow> Inr b)"

definition write_file :: "filesystem \<Rightarrow> path \<Rightarrow> bytes \<Rightarrow> os_error + filesystem" where
  "write_file fs p data =
     (case locate fs p of
        None \<Rightarrow> Inl FileNotFoundError
      | Some cs \<Rightarrow>
          (case lookup (root fs) cs of
             Some (Dir es) \<Rightarrow> Inl IsADirectoryError
           | _ \<Rightarrow>
               (case put_at (root fs) cs (Reg data) of
                  None \<Rightarrow> Inl FileNotFoundError
                | Some r \<Rightarrow> Inr (fs\<lparr>root := r\<rparr>))))"

section \<open>FileSystemManager\<close>

record FileSystemManager =
  items :: "string \<rightharpoonup> FileSystemItem"
  current_path :: path

text \<open>
  \<open>scan_directory\<close>: an entry whose name starts with the marker is a folder, any other
  a file; the manager's dictionary is rebuilt, and the list is sorted by the key
  \<open>(item_type == 'file', display_name.lower())\<close>. A missing directory gives the empty
  list and leaves the dictionary as it was.
\<close>

definition classify :: "string \<times> path \<Rightarrow> FileSystemItem" where
  "classify entry =
     (if startswith (fst entry) ''-__'' then FolderItem (fst entry) (snd entry)
      else FileItem (fst entry) (snd entry))"

definition sort_key_of :: "FileSystemItem \<Rightarrow> bool \<times> string" where
  "sort_key_of x = (item_type x = File, lower (display_name x))"

definition scan_directory ::
  "filesystem \<Rightarrow> FileSystemManager \<Rightarrow> path
     \<Rightarrow> os_error + (FileSystemItem list \<times> FileSystemManager)" where
  "scan_directory fs m base_path =
     (if \<not> path_exists fs base_path then Inr ([], m)
      else (case scandir fs base_path of
              Inl e \<Rightarrow> Inl e
            | Inr entries \<Rightarrow>
                (let found = map classify entries;
                     dict = foldl (\<lambda>d i. d((if item_type i = Folder then display_name i
                                             else name i) \<mapsto> i)) Map.empty found
                 in Inr (sort_key sort_key_of found, m\<lparr>items := dict\<rparr>))))"

text \<open>
  \<open>rename_item\<close>, \<open>move_item\<close> and \<open>delete_item\<close> return a pair of a success flag and
  the new path or a message; the model returns the file system beside it. Every
  exception is caught and becomes a failure with its text.
\<close>

definition rename_item ::
  "filesystem \<Rightarrow> FileSystemItem \<Rightarrow> string \<Rightarrow> (bool \<times> string) \<times> filesystem" where
  "rename_item fs item new_name =
     (let new_path =
        (if item_type item = Folder then join (dirname (full_path item)) (''-__'' @ new_name)
         else join (dirname (full_path item)) new_name)
      in if path_exists fs new_path
         then ((False, ''An item with this name already exists!''), fs)
         else (case os_rename fs (full_path item) new_path of
                 Inr fs' \<Rightarrow> ((True, new_path), fs')
               | Inl e \<Rightarrow> ((False, ''Rename error: '' @ str e), fs)))"

definition move_item ::
  "filesystem \<Rightarrow> FileSystemItem \<Rightarrow> path \<Rightarrow> (bool \<times> string) \<times> filesystem" where
  "move_item fs item target_path =
     (let new_path = join target_path (basename (full_path item))
      in if path_exists fs new_path
         then ((False, ''An item with the same name exists at destination!''), fs)
         else (case shutil_move fs (full_path item) new_path of
                 Inr fs' \<Rightarrow> ((True, new_path), fs')
               | Inl e \<Rightarrow> ((False, ''Move error: '' @ str e), fs)))"

definition delete_item ::
  "filesystem \<Rightarrow> FileSystemItem \<Rightarrow> (bool \<times> string) \<times> filesystem" where
  "delete_item fs item =
     (case rmtree fs (full_path item) of
        Inr fs' \<Rightarrow> ((True, ''Success''), fs')
      | Inl e \<Rightarrow> ((False, ''Delete error: '' @ str e), fs))"

section \<open>The dialogs\<close>

text \<open>
  What a press on a dialog's confirming button does: the dialog is accepted with a
  value, or a message box is shown (\<open>QMessageBox.warning\<close>, \<open>QMessageBox.information\<close>)
  and the dialog stays open, accepting nothing. \<open>Critical\<close> is the message box the
  main window shows when the file system manager reports a failure, and \<open>Completed\<close>
  the end of an operation that showed none.
\<close>

datatype ui = Accepted string | Warning string | Information string | Critical string | Completed

definition invalid_chars :: "char list" where
  "invalid_chars =
     [CHR ''/'', CHR 0x5C, CHR '':'', CHR ''*'', CHR ''?'', CHR 0x22, CHR ''<'', CHR ''>'', CHR ''|'']"

definition RenameDialog_accept :: "string \<Rightarrow> string \<Rightarrow> ui" where
  "RenameDialog_accept current_name text =
     (let new_name = strip text
      in if new_name = [] then Warning ''Please enter a name!''
         else if new_name = current_name then Information ''Name unchanged!''
         else if \<exists>c \<in> set invalid_chars. c \<in> set new_name
              then Warning ''Name contains invalid characters!''
         else Accepted new_name)"

definition MoveDialog_accept :: "path \<Rightarrow> item_type \<Rightarrow> path \<Rightarrow> ui" where
  "MoveDialog_accept item_path kind selected_path =
     (let selected = (if selected_path = [] then ''data'' else selected_path)
      in if selected = dirname item_path
         then Information ''Cannot move to the same location!''
         else if kind = Folder \<and> startswith selected item_path
              then Warning ''Cannot move a folder to its own subdirectory!''
         else Accepted selected)"

text \<open>
  \<open>MoveDialog.on_selection_changed\<close> stores as \<open>selected_path\<close> what
  \<open>QFileSystemModel.filePath\<close> returns for the directory selected in the tree view.
  By Qt's documentation that is the absolute path of the directory: the separator
  before each of its components from the root.
\<close>

definition filePath :: "filesystem \<Rightarrow> path \<Rightarrow> path" where
  "filePath fs p =
     (case locate fs p of
        None \<Rightarrow> []
      | Some cs \<Rightarrow> if cs = [] then ''/'' else concat (map (\<lambda>c. ''/'' @ c) cs))"

section \<open>The main window: operations with index synchronisation\<close>

text \<open>
  The state the operations of \<open>MainWindow\<close> act on: the file system and the two
  indexes. The operations carry the prefix \<open>mw_\<close>, since they share their names with
  those of the file system manager. Refreshing the displays (\<open>populate_files\<close> and its siblings) is not modelled.
  \<open>text\<close>, \<open>selected_path\<close> and \<open>confirmed\<close> are what the user enters in the dialog;
  a dialog that shows a message box instead of accepting is then closed without effect.
\<close>

record app =
  tree :: filesystem
  history_manager :: "HistoryItem list"
  pin_manager :: "PinnedItem list"

definition mw_rename_item :: "app \<Rightarrow> FileSystemItem \<Rightarrow> string \<Rightarrow> ui \<times> app" where
  "mw_rename_item st item text =
     (case RenameDialog_accept (display_name item) text of
        Accepted new_name \<Rightarrow>
          (let old_path = full_path item;
               (res, fs') = rename_item (tree st) item new_name
           in if fst res
              then (Completed,
                    st\<lparr>tree := fs',
                       history_manager := history_update_path (history_manager st) old_path (snd res),
                       pin_manager := (if item_type item = File
                                then pin_update_path (pin_manager st) old_path (snd res)
                                else pin_manager st)\<rparr>)
              else (Critical (snd res), st\<lparr>tree := fs'\<rparr>))
      | shown \<Rightarrow> (shown, st))"

definition mw_move_item :: "app \<Rightarrow> FileSystemItem \<Rightarrow> path \<Rightarrow> ui \<times> app" where
  "mw_move_item st item selected_path =
     (case MoveDialog_accept (full_path item) (item_type item) selected_path of
        Accepted selected \<Rightarrow>
          (let old_path = full_path item;
               (res, fs') = move_item (tree st) item selected
           in if fst res
              then (Completed,
                    st\<lparr>tree := fs',
                       history_manager := history_update_path (history_manager st) old_path (snd res),
                       pin_manager := (if item_type item = File
                                then pin_update_path (pin_manager st) old_path (snd res)
                                else pin_manager st)\<rparr>)
              else (Critical (snd res), st\<lparr>tree := fs'\<rparr>))
      | shown \<Rightarrow> (shown, st))"

definition mw_delete_item :: "app \<Rightarrow> FileSystemItem \<Rightarrow> bool \<Rightarrow> ui \<times> app" where
  "mw_delete_item st item confirmed =
     (if confirmed
      then (let (res, fs') = delete_item (tree st) item
            in if fst res
               then (Completed,
                     st\<lparr>tree := fs',
                        history_manager := remove_item (history_manager st) (full_path item),
                        pin_manager := (if item_type item = File
                                 then unpin_file (pin_manager st) (full_path item)
                                 else pin_manager st)\<rparr>)
               else (Critical (snd res), st\<lparr>tree := fs'\<rparr>))
      else (Completed, st))"

section \<open>An example store\<close>

text \<open>
  \<open>mount d\<close> is a file system in which the program was started in the directory
  \<open>/home/user/silverlock\<close>, whose content is \<open>d\<close>. The first store is a content root with
  two folders and two files, listed in no particular order.
\<close>

definition mount :: "node \<Rightarrow> filesystem" where
  "mount d =
     \<lparr>root = Dir [(''home'', Dir [(''user'', Dir [(''silverlock'', d)])])],
      cwd = [''home'', ''user'', ''silverlock'']\<rparr>"

definition example_tree :: filesystem where
  "example_tree =
     mount (Dir [(''data'', Dir [(''beta'', Dir []), (''-__Zoo'', Dir []), (''Alpha'', Dir []),
                                 (''-__notes'', Dir [])])])"

text \<open>
  A second store with its indexes: a file, a file whose name holds a colon (a legal
  name on a POSIX file system), and a folder holding one file that is both in the
  history and pinned.
\<close>

definition example_app :: app where
  "example_app =
     \<lparr>tree = mount (Dir [(''data'',
         Dir [(''Alpha'', Dir [(''content.html'', Reg [])]),
              (''a:b'', Dir []),
              (''-__notes'', Dir [(''Diary'', Dir [(''content.html'', Reg [])])])])]),
      history_manager =
        [\<lparr>h_name = ''Diary'', h_full_path = ''data/-__notes/Diary'',
          last_accessed = ''2024-05-01T10:00:00''\<rparr>,
         \<lparr>h_name = ''Alpha'', h_full_path = ''data/Alpha'',
          last_accessed = ''2024-04-01T09:00:00''\<rparr>],
      pin_manager =
        [\<lparr>p_name = ''Diary'', p_full_path = ''data/-__notes/Diary'',
          pinned_at = ''2024-05-01T10:00:05''\<rparr>]\<rparr>"

section \<open>Password credentials\<close>

text \<open>
  \<open>base64.urlsafe_b64encode\<close> and \<open>base64.urlsafe_b64decode\<close> of the Python standard
  library. Encoding is the standard encoding, three bytes into four characters with
  \<open>=\<close> padding, followed by the translation of \<open>+\<close> and \<open>/\<close> into \<open>-\<close> and \<open>_\<close>. Decoding
  translates back and runs the lenient decoder of \<open>binascii.a2b_base64\<close>: characters
  outside the alphabet are skipped, a pad sequence that completes a group ends the
  input, and an incomplete last group raises \<open>binascii.Error\<close>. The decoder's state is
  the position in the group of four, the bits left over and the number of pads seen.
\<close>

definition b64_alphabet :: "char list" where
  "b64_alphabet = ''ABCDEFGHIJKLMNOPQRSTUVWXYZabcdefghijklmnopqrstuvwxyz0123456789+/''"


definition b64_value :: "char \<Rightarrow> nat option" where
  "b64_value c = map_of (zip b64_alphabet [0..<64]) c"



definition urlsafe_decode_translation :: "char \<Rightarrow> char" where
  "urlsafe_decode_translation c =
     (if c = CHR ''-'' then CHR ''+'' else if c = CHR ''_'' then CHR ''/'' else c)"


fun a2b_base64 :: "nat \<Rightarrow> nat \<Rightarrow> nat \<Rightarrow> bytes \<Rightarrow> os_error + bytes" where
  "a2b_base64 quad_pos leftchar pads [] =
     (if quad_pos \<noteq> 0 then Inl BinasciiError else Inr [])"
| "a2b_base64 quad_pos leftchar pads (this_ch # rest) =
     (if this_ch = CHR ''=''
      then (if quad_pos \<ge> 2
            then (if quad_pos + (pads + 1) \<ge> 4 then Inr []
                  else a2b_base64 quad_pos leftchar (pads + 1) rest)
            else a2b_base64 quad_pos leftchar pads rest)
      else (case b64_value this_ch of
              None \<Rightarrow> a2b_base64 quad_pos leftchar pads rest
            | Some v \<Rightarrow>
                if quad_pos = 0 then a2b_base64 1 v 0 rest
                else if quad_pos = 1
                  then map_sum id ((#) (char_of (leftchar * 4 + v div 16)))
                         (a2b_base64 2 (v mod 16) 0 rest)
                else if quad_pos = 2
                  then map_sum id ((#) (char_of (leftchar * 16 + v div 4)))
                         (a2b_base64 3 (v mod 4) 0 rest)
                else map_sum id ((#) (char_of (leftchar * 64 + v)))
                       (a2b_base64 0 0 0 rest)))"

definition urlsafe_b64decode :: "bytes \<Rightarrow> os_error + bytes" where
  "urlsafe_b64decode s = a2b_base64 0 0 0 (map urlsafe_decode_translation s)"

text \<open>\<open>str.encode('utf-8')\<close> for characters below code point 256: one byte or two.\<close>

definition encode_utf8 :: "string \<Rightarrow> bytes" where
  "encode_utf8 s =
     concat (map (\<lambda>c. let n = (of_char c :: nat)
                      in if n < 128 then [c]
                         else [char_of (192 + n div 64), char_of (128 + n mod 64)]) s)"


definition verify_password ::
  "(bytes \<Rightarrow> bytes \<Rightarrow> bytes) \<Rightarrow> bytes \<Rightarrow> string \<Rightarrow> os_error + bool" where
  "verify_password kdf stored_hashed_password password_to_check =
     (case urlsafe_b64decode stored_hashed_password of
        Inl e \<Rightarrow> Inl e
      | Inr decoded_stored \<Rightarrow>
          Inr (kdf (take 16 decoded_stored) (encode_utf8 password_to_check) =
               drop 16 decoded_stored))"


definition load_hashed_password :: "filesystem \<Rightarrow> path \<Rightarrow> os_error + bytes" where
  "load_hashed_password fs file_path =
     (if \<not> path_exists fs file_path then Inl FileNotFoundError
      else read_file fs file_path)"


definition load_password_hash :: "filesystem \<Rightarrow> FileSystemItem \<Rightarrow> bytes option" where
  "load_password_hash fs item =
     (let password_file = password_file_path item
      in if path_exists fs password_file
         then (case load_hashed_password fs password_file of
                 Inr hashed \<Rightarrow> Some hashed
               | Inl e \<Rightarrow> None)
         else None)"

section \<open>Opening a file\<close>

text \<open>
  What a click on a file leads to: the content is handed to the editor, the login
  window is shown with the expected credential, or an exception escapes.
  \<open>open_file_content\<close> creates the content file when it is missing.
\<close>

datatype access = Opened path | LoginWindow bytes | Raised os_error

definition open_file_content ::
  "filesystem \<Rightarrow> FileSystemItem \<Rightarrow> access \<times> filesystem" where
  "open_file_content fs file_item =
     (let content_file = content_file_path file_item
      in if \<not> path_exists fs content_file
         then (let content_dir = dirname content_file
               in case (if \<not> path_exists fs content_dir then makedirs fs content_dir
                        else Inr fs) of
                    Inl e \<Rightarrow> (Raised e, fs)
                  | Inr fs1 \<Rightarrow>
                      (case write_file fs1 content_file [CHR 0x0A] of
                         Inl e \<Rightarrow> (Raised e, fs1)
                       | Inr fs2 \<Rightarrow> (Opened content_file, fs2)))
         else (Opened content_file, fs))"

definition open_file_with_password_check ::
  "app \<Rightarrow> FileSystemItem \<Rightarrow> string \<Rightarrow> access \<times> app" where
  "open_file_with_password_check st file_item now =
     (case load_password_hash (tree st) file_item of
        None \<Rightarrow>
          (let (res, fs') = open_file_content (tree st) file_item
           in (res, st\<lparr>tree := fs',
                       history_manager := add_file_to_history (history_manager st) file_item now\<rparr>))
      | Some password_hash \<Rightarrow> (LoginWindow password_hash, st))"

text \<open>
  \<open>LoginWindow.authenticate\<close> with the success callback of the main window: only a
  verified password adds the file to the history and opens its content.
\<close>

definition authenticate ::
  "(bytes \<Rightarrow> bytes \<Rightarrow> bytes) \<Rightarrow> app \<Rightarrow> FileSystemItem \<Rightarrow> bytes \<Rightarrow> string \<Rightarrow> string
     \<Rightarrow> access \<times> app" where
  "authenticate kdf st file_item expected_password_hash entered_password now =
     (case verify_password kdf expected_password_hash entered_password of
        Inl e \<Rightarrow> (Raised e, st)
      | Inr True \<Rightarrow>
          (let (res, fs') = open_file_content (tree st) file_item
           in (res, st\<lparr>tree := fs',
                       history_manager := add_file_to_history (history_manager st) file_item now\<rparr>))
      | Inr False \<Rightarrow> (LoginWindow expected_password_hash, st))"

text \<open>
  A store whose file \<open>Secret\<close> has a credential file that exists but may not be read,
  and a toy key derivation function for the examples.
\<close>

definition locked_app :: app where
  "locked_app =
     \<lparr>tree = mount (Dir [(''data'',
         Dir [(''Secret'', Dir [(''content.html'', Reg ''my diary''),
                                (''content.bin'', Unreadable)])])]),
      history_manager = [],
      pin_manager = []\<rparr>"


section \<open>Properties of the indexes\<close>

lemma length_sort_reverse: "length (sort_reverse k xs) = length xs"
  by (simp add: sort_reverse_def)

lemma mset_sort_reverse: "mset (sort_reverse k xs) = mset xs"
  by (simp add: sort_reverse_def)

lemma sort_reverse_descending: "sorted (rev (map k (sort_reverse k xs)))"
  by (simp add: sort_reverse_def rev_map)

lemma descending_take_drop:
  assumes "sorted (rev (map k ys))" "x \<in> set (take n ys)" "r \<in> set (drop n ys)"
  shows "k r \<le> k x"
proof -
  have "sorted (rev (map k (take n ys @ drop n ys)))" using assms(1) by simp
  then have "sorted (rev (map k (drop n ys)) @ rev (map k (take n ys)))"
    by (simp only: map_append rev_append)
  then show ?thesis using assms(2,3)
    by (simp add: sorted_append)
qed

lemma touch_existing_counted_length:
  "touch_existing_counted p t h = Some h' \<Longrightarrow> length h' = length h"
  by (induction h arbitrary: h') (auto split: if_splits)

lemma touch_existing_counted_None:
  "touch_existing_counted p t h = None \<longleftrightarrow> p \<notin> h_full_path ` set h"
  by (induction h) auto

lemma take_evicts_last:
  assumes "length ys = Suc n"
  shows "ys = take n ys @ [last ys]"
proof -
  have "ys \<noteq> []" using assms by auto
  then have "ys = butlast ys @ [last ys]" by simp
  moreover have "butlast ys = take n ys" using assms by (simp add: butlast_conv_take)
  ultimately show ?thesis by simp
qed

lemma add_counted_le: "length (add_file_to_history_counted h i t) \<le> 50"
  by (simp add: add_file_to_history_counted_def Let_def)

lemma add_history_le: "length (add_file_to_history h i t) \<le> 50"
  by (simp add: add_file_to_history_def Let_def)

lemma touch_sequence_le:
  "touches \<noteq> [] \<or> length h \<le> 50 \<Longrightarrow> length (touch_sequence h touches) \<le> 50"
proof (induction touches arbitrary: h)
  case Nil
  then show ?case by (simp add: touch_sequence_def)
next
  case (Cons a touches)
  obtain i t where a: "a = (i, t)" by (cases a)
  have "length (touch_sequence (add_file_to_history_counted h i t) touches) \<le> 50"
    by (rule Cons.IH) (simp add: add_counted_le)
  then show ?case by (simp add: touch_sequence_def a)
qed

lemma pin_file_item_le:
  "length ps \<le> 20 \<Longrightarrow> length (snd (pin_file_item ps i t)) \<le> 20"
  by (simp add: pin_file_item_def)

lemma pin_sequence_le:
  "length ps \<le> 20 \<Longrightarrow> length (pin_sequence ps pins) \<le> 20"
proof (induction pins arbitrary: ps)
  case Nil
  then show ?case by (simp add: pin_sequence_def)
next
  case (Cons a pins)
  obtain i t where a: "a = (i, t)" by (cases a)
  have "length (pin_sequence (snd (pin_file_item ps i t)) pins) \<le> 20"
    by (rule Cons.IH) (rule pin_file_item_le [OF Cons.prems])
  then show ?case by (simp add: pin_sequence_def a)
qed

lemma evict_oldest:
  fixes k :: "'a \<Rightarrow> 'k::linorder"
  assumes "length xs = Suc n"
  shows "length (take n (sort_reverse k xs)) = n \<and>
         (\<exists>r. mset (take n (sort_reverse k xs)) + {#r#} = mset xs \<and>
              (\<forall>x \<in> set (take n (sort_reverse k xs)). k r \<le> k x))"
proof -
  let ?ys = "sort_reverse k xs"
  have len: "length ?ys = Suc n" using assms by (simp add: length_sort_reverse)
  have split: "?ys = take n ?ys @ [last ?ys]" by (rule take_evicts_last [OF len])
  have "mset ?ys = mset (take n ?ys @ [last ?ys])" using split by simp
  then have m: "mset (take n ?ys) + {#last ?ys#} = mset xs"
    by (simp add: mset_sort_reverse)
  have "drop n ?ys = [last ?ys]"
    using split len by (metis append_eq_conv_conj length_take min.absorb2 le_add2 plus_1_eq_Suc)
  then have "last ?ys \<in> set (drop n ?ys)" by simp
  then have "\<forall>x \<in> set (take n ?ys). k (last ?ys) \<le> k x"
    using descending_take_drop [OF sort_reverse_descending, of _ n k xs "last ?ys"] by simp
  with m len show ?thesis by auto
qed

lemma touch_existing_None:
  "touch_existing p t h = None \<longleftrightarrow> p \<notin> h_full_path ` set h"
  by (induction h) auto

text \<open>
  The eviction at the bound, for \<open>add_file_to_history\<close> of \<open>dashboard.py\<close>, which differs
  from the one of \<open>items.py\<close> only in the access counter.
\<close>

lemma add_file_to_history_evicts:
  assumes "length h = 50" and "full_path i \<notin> h_full_path ` set h"
  shows "length (add_file_to_history h i t) = 50"
    and "\<exists>r. mset (add_file_to_history h i t) + {#r#} =
             mset (h @ [\<lparr>h_name = display_name i, h_full_path = full_path i,
                          last_accessed = t\<rparr>]) \<and>
           (\<forall>x \<in> set (add_file_to_history h i t). last_accessed r \<le> last_accessed x)"
proof -
  let ?new = "\<lparr>h_name = display_name i, h_full_path = full_path i, last_accessed = t\<rparr>"
  have none: "touch_existing (full_path i) t h = None"
    using assms(2) by (simp add: touch_existing_None)
  have eq: "add_file_to_history h i t = take 50 (sort_reverse last_accessed (h @ [?new]))"
    by (simp add: add_file_to_history_def none)
  have len: "length (h @ [?new]) = Suc 50" using assms(1) by simp
  from evict_oldest [OF len, of last_accessed]
  show "length (add_file_to_history h i t) = 50"
    and "\<exists>r. mset (add_file_to_history h i t) + {#r#} = mset (h @ [?new]) \<and>
           (\<forall>x \<in> set (add_file_to_history h i t). last_accessed r \<le> last_accessed x)"
    unfolding eq by blast+
qed

text \<open>
  Claim C7. After any non-empty sequence of touches, and after any sequence that starts
  from an index of at most 50 records, the recency index holds at most 50 records.
  Touching a path that is not yet indexed when the index holds 50 records leaves exactly
  50: of the 51 records exactly one is dropped, and its time stamp is not above that of
  any record kept. The pin index, once within 20 records, stays within 20 under any
  sequence of pins.
\<close>

theorem recency_pin_bounds:
  "(touches \<noteq> [] \<or> length h \<le> 50 \<longrightarrow> length (touch_sequence h touches) \<le> 50) \<and>
   (length h = 50 \<and> full_path i \<notin> h_full_path ` set h \<longrightarrow>
      length (add_file_to_history_counted h i t) = 50 \<and>
      (\<exists>r. mset (add_file_to_history_counted h i t) + {#r#} =
             mset (h @ [\<lparr>h_name = display_name i, h_full_path = full_path i,
                          last_accessed = t, access_count = 1\<rparr>]) \<and>
           (\<forall>x \<in> set (add_file_to_history_counted h i t).
              last_accessed r \<le> last_accessed x))) \<and>
   (length ps \<le> 20 \<longrightarrow> length (pin_sequence ps pins) \<le> 20)"
proof (intro conjI impI)
  assume "touches \<noteq> [] \<or> length h \<le> 50"
  then show "length (touch_sequence h touches) \<le> 50" by (rule touch_sequence_le)
next
  assume a: "length h = 50 \<and> full_path i \<notin> h_full_path ` set h"
  let ?new = "\<lparr>h_name = display_name i, h_full_path = full_path i,
                last_accessed = t, access_count = 1\<rparr>"
  have none: "touch_existing_counted (full_path i) t h = None"
    using a by (simp add: touch_existing_counted_None)
  have eq: "add_file_to_history_counted h i t = take 50 (sort_reverse last_accessed (h @ [?new]))"
    by (simp add: add_file_to_history_counted_def none)
  have len: "length (h @ [?new]) = Suc 50" using a by simp
  from evict_oldest [OF len, of last_accessed]
  show "length (add_file_to_history_counted h i t) = 50"
    and "\<exists>r. mset (add_file_to_history_counted h i t) + {#r#} = mset (h @ [?new]) \<and>
           (\<forall>x \<in> set (add_file_to_history_counted h i t).
              last_accessed r \<le> last_accessed x)"
    unfolding eq by blast+
next
  assume "length ps \<le> 20"
  then show "length (pin_sequence ps pins) \<le> 20" by (rule pin_sequence_le)
qed

theorem recency_pin_bounds_witness:
  "[(FileItem ''z'' ''data/z'', ''2'')] \<noteq> [] \<and>
   (length (map (\<lambda>n. \<lparr>h_name = ''a'', h_full_path = replicate n CHR ''a'',
                    last_accessed = replicate n CHR ''1'', access_count = 1\<rparr>) [0..<50]) = 50 \<and>
    full_path (FileItem ''z'' ''data/z'') \<notin> h_full_path `
      set (map (\<lambda>n. \<lparr>h_name = ''a'', h_full_path = replicate n CHR ''a'',
                    last_accessed = replicate n CHR ''1'', access_count = 1\<rparr>) [0..<50])) \<and>
   length ([] :: PinnedItem list) \<le> 20 \<and>
   length (add_file_to_history_counted
      (map (\<lambda>n. \<lparr>h_name = ''a'', h_full_path = replicate n CHR ''a'',
                    last_accessed = replicate n CHR ''1'', access_count = 1\<rparr>) [0..<50])
      (FileItem ''z'' ''data/z'') ''2'') = 50 \<and>
   length (pin_sequence [] [(FileItem ''z'' ''data/z'', ''2'')]) \<le> 20"
proof -
  let ?h = "map (\<lambda>n. \<lparr>h_name = ''a'', h_full_path = replicate n CHR ''a'',
                    last_accessed = replicate n CHR ''1'', access_count = 1\<rparr>) [0..<50]"
  let ?i = "FileItem ''z'' ''data/z''"
  have h1: "length ?h = 50" by simp
  have ne: "''data/z'' \<noteq> replicate n CHR ''a''" for n
  proof
    assume "''data/z'' = replicate n CHR ''a''"
    then have "CHR ''d'' \<in> set (replicate n CHR ''a'')" by (metis list.set_intros(1))
    then show False by simp
  qed
  have h2: "full_path ?i \<notin> h_full_path ` set ?h"
  proof
    assume "full_path ?i \<in> h_full_path ` set ?h"
    then obtain n where "''data/z'' = replicate n CHR ''a''"
      by (auto simp: FileItem_def)
    with ne show False by blast
  qed
  have h3: "length ([] :: PinnedItem list) \<le> 20" by simp
  from recency_pin_bounds [of "[(?i, ''2'')]" ?h ?i "''2''" "[]" "[(?i, ''2'')]"] h1 h2 h3
  show ?thesis by blast
qed

section \<open>Paths and the file system tree\<close>

lemma split_sep_nonempty: "split_sep p \<noteq> []"
  by (induction p) (auto split: list.splits)

lemma split_sep_plain: "CHR ''/'' \<notin> set b \<Longrightarrow> split_sep b = [b]"
  by (induction b) auto

lemma split_sep_append: "split_sep (a @ CHR ''/'' # b) = split_sep a @ split_sep b"
proof (induction a)
  case Nil
  show ?case by simp
next
  case (Cons c cs)
  show ?case
  proof (cases "c = CHR ''/''")
    case True
    then show ?thesis using Cons by simp
  next
    case False
    obtain w ws where w: "split_sep cs = w # ws"
      using split_sep_nonempty [of cs] by (cases "split_sep cs") auto
    show ?thesis using False Cons w by simp
  qed
qed

lemma components_append:
  "components (a @ CHR ''/'' # b) = components a @ components b"
  by (simp add: components_def split_sep_append)

lemma components_plain: "CHR ''/'' \<notin> set b \<Longrightarrow> b \<noteq> [] \<Longrightarrow> components b = [b]"
  by (simp add: components_def split_sep_plain)

lemma components_Nil: "components [] = []"
  by (simp add: components_def)

lemma components_join:
  assumes "CHR ''/'' \<notin> set b" "b \<noteq> []"
  shows "components (join a b) = components a @ [b]"
proof -
  have nb: "\<not> startswith b ''/''" using assms by (auto simp: startswith_def prefix_def)
  show ?thesis
  proof (cases "a = []")
    case True
    then show ?thesis using nb assms by (simp add: join_def components_plain components_Nil)
  next
    case False
    show ?thesis
    proof (cases "endswith a ''/''")
      case True
      then obtain a' where a': "a = a' @ ''/''" by (auto simp: endswith_def suffix_def)
      have "components a = components a'"
        using components_append [of a' "[]"] by (simp add: a' components_def)
      moreover have "components (a @ b) = components a' @ [b]"
        using components_append [of a' b] assms by (simp add: a' components_plain)
      ultimately show ?thesis using True nb by (simp add: join_def)
    next
      case no: False
      have "components (a @ ''/'' @ b) = components a @ [b]"
        using components_append [of a b] assms by (simp add: components_plain)
      then show ?thesis using no nb False by (simp add: join_def)
    qed
  qed
qed

lemma join_absolute:
  assumes "a \<noteq> []" "\<not> startswith b ''/''"
  shows "startswith (join a b) ''/'' \<longleftrightarrow> startswith a ''/''"
proof -
  obtain x xs where a: "a = x # xs" using assms(1) by (cases a) auto
  have "join a b = x # (xs @ b) \<or> join a b = x # (xs @ ''/'' @ b)"
    using assms(2) by (simp add: join_def a)
  then have "startswith (join a b) ''/'' \<longleftrightarrow> x = CHR ''/''"
    by (auto simp: startswith_def)
  moreover have "startswith a ''/'' \<longleftrightarrow> x = CHR ''/''"
    by (auto simp: a startswith_def)
  ultimately show ?thesis by simp
qed

lemma locate_join:
  assumes "CHR ''/'' \<notin> set b" "b \<noteq> []" "locate fs a = Some cs"
  shows "locate fs (join a b) = Some (cs @ [b])"
proof -
  have nb: "\<not> startswith b ''/''" using assms by (auto simp: startswith_def prefix_def)
  have a: "a \<noteq> []" using assms(3) by (auto simp: locate_def)
  have j: "join a b \<noteq> []" using a nb by (simp add: join_def)
  show ?thesis
    using assms(3) a j join_absolute [OF a nb] components_join [OF assms(1,2), of a]
    by (auto simp: locate_def split: if_splits)
qed

lemma map_of_set_entry: "map_of (set_entry c v es) c = Some v"
  by (induction es) auto

lemma lookup_put_at: "put_at n cs v = Some n' \<Longrightarrow> lookup n' cs = Some v"
proof (induction n cs v arbitrary: n' rule: put_at.induct)
  case (3 es c d ds v)
  then show ?case
    by (auto simp: map_of_set_entry split: option.splits)
qed (auto simp: map_of_set_entry)

lemma set_entry_member: "(c, v) \<in> set (set_entry c v es)"
  by (induction es) auto

lemma put_at_parent:
  "put_at n (ps @ [c]) v = Some n' \<Longrightarrow> \<exists>es. lookup n' ps = Some (Dir es) \<and> (c, v) \<in> set es"
proof (induction ps arbitrary: n n')
  case Nil
  then show ?case
    by (cases n) (auto simp: set_entry_member)
next
  case (Cons p ps)
  obtain q qs where q: "ps @ [c] = q # qs" by (cases ps) auto
  show ?case
  proof (cases n)
    case (Dir es)
    with Cons.prems q obtain m m' where m: "map_of es p = Some m"
      and pm: "put_at m (ps @ [c]) v = Some m'" and n': "n' = Dir (set_entry p m' es)"
      by (auto split: option.splits)
    from Cons.IH [OF pm] obtain es' where "lookup m' ps = Some (Dir es')" "(c, v) \<in> set es'" by blast
    then show ?thesis using n' by (auto simp: map_of_set_entry)
  qed (use Cons.prems q in auto)
qed

lemma locate_root_update: "locate (fs\<lparr>root := r\<rparr>) p = locate fs p"
  by (simp add: locate_def)

lemma os_rename_Inr:
  assumes "os_rename fs src dst = Inr fs'"
  shows "\<exists>s d n r. locate fs src = Some s \<and> locate fs dst = Some d \<and>
           lookup (root fs) s = Some n \<and> put_at (remove_at (root fs) s) d n = Some r \<and>
           fs' = fs\<lparr>root := r\<rparr>"
  using assms
  by (auto simp: os_rename_def split: option.splits if_splits prod.splits)

section \<open>Scanning and the name codec\<close>

lemma sort_key_of_le:
  "sort_key_of x \<le> sort_key_of y \<longleftrightarrow>
     (item_type x = Folder \<and> item_type y = File) \<or>
     (item_type x = item_type y \<and> lower (display_name x) \<le> lower (display_name y))"
  by (cases "item_type x"; cases "item_type y") (auto simp: sort_key_of_def)

lemma scan_sorted_nth:
  assumes "sorted (map sort_key_of found)" "i < j" "j < length found"
  shows "sort_key_of (found ! i) \<le> sort_key_of (found ! j)"
proof -
  have "map sort_key_of found ! i \<le> map sort_key_of found ! j"
    using assms by (intro sorted_nth_mono) auto
  then show ?thesis using assms by simp
qed

lemma scan_directory_Inr:
  assumes "scan_directory fs m base_path = Inr (found, m')"
  shows "sorted (map sort_key_of found)"
  using assms
  by (auto simp: scan_directory_def Let_def split: if_splits sum.splits)

lemma scan_directory_Dir:
  assumes "resolve fs base_path = Some (Dir es)"
  shows "\<exists>m'. scan_directory fs m base_path =
            Inr (sort_key sort_key_of (map (\<lambda>e. classify (fst e, join base_path (fst e))) es), m')"
  using assms
  by (simp add: scan_directory_def path_exists_def scandir_def Let_def comp_def)

text \<open>
  Claim C8. Scanning a path that does not exist returns the empty list. Scanning a
  directory returns exactly its classified entries, ordered so that no file precedes a
  folder and, among items of one kind, by the lower-cased display name.
\<close>

theorem scan_sorted:
  "(\<not> path_exists fs base_path \<longrightarrow> scan_directory fs m base_path = Inr ([], m)) \<and>
   (resolve fs base_path = Some (Dir es) \<longrightarrow>
      (\<exists>found m'. scan_directory fs m base_path = Inr (found, m') \<and>
         mset found = mset (map (\<lambda>e. classify (fst e, join base_path (fst e))) es))) \<and>
   (scan_directory fs m base_path = Inr (found, m') \<longrightarrow>
      (\<forall>i j. i < j \<and> j < length found \<longrightarrow>
         \<not> (item_type (found ! i) = File \<and> item_type (found ! j) = Folder) \<and>
         (item_type (found ! i) = item_type (found ! j) \<longrightarrow>
            lower (display_name (found ! i)) \<le> lower (display_name (found ! j)))))"
proof (intro conjI impI allI)
  assume "\<not> path_exists fs base_path"
  then show "scan_directory fs m base_path = Inr ([], m)"
    by (simp add: scan_directory_def)
next
  assume "resolve fs base_path = Some (Dir es)"
  from scan_directory_Dir [OF this, of m]
  show "\<exists>found m'. scan_directory fs m base_path = Inr (found, m') \<and>
         mset found = mset (map (\<lambda>e. classify (fst e, join base_path (fst e))) es)"
    by auto
next
  fix i j
  assume r: "scan_directory fs m base_path = Inr (found, m')" and ij: "i < j \<and> j < length found"
  have le: "sort_key_of (found ! i) \<le> sort_key_of (found ! j)"
    using scan_sorted_nth [OF scan_directory_Inr [OF r]] ij by blast
  then show "\<not> (item_type (found ! i) = File \<and> item_type (found ! j) = Folder)"
    by (auto simp: sort_key_of_le)
  assume "item_type (found ! i) = item_type (found ! j)"
  with le show "lower (display_name (found ! i)) \<le> lower (display_name (found ! j))"
    by (auto simp: sort_key_of_le)
qed

theorem scan_sorted_witness:
  "\<not> path_exists example_tree ''nowhere'' \<and>
   resolve example_tree ''data/'' =
     Some (Dir [(''beta'', Dir []), (''-__Zoo'', Dir []), (''Alpha'', Dir []), (''-__notes'', Dir [])]) \<and>
   scan_directory example_tree \<lparr>items = Map.empty, current_path = ''data/''\<rparr> ''nowhere'' =
     Inr ([], \<lparr>items = Map.empty, current_path = ''data/''\<rparr>) \<and>
   map_sum id fst (scan_directory example_tree \<lparr>items = Map.empty, current_path = ''data/''\<rparr> ''data/'') =
     Inr [FolderItem ''-__notes'' ''data/-__notes'', FolderItem ''-__Zoo'' ''data/-__Zoo'',
          FileItem ''Alpha'' ''data/Alpha'', FileItem ''beta'' ''data/beta''] \<and>
   lower (display_name (FileItem ''Alpha'' ''data/Alpha'')) \<le> lower (display_name (FileItem ''beta'' ''data/beta''))"
proof -
  let ?m = "\<lparr>items = Map.empty, current_path = ''data/''\<rparr>"
  let ?es = "[(''beta'', Dir []), (''-__Zoo'', Dir []), (''Alpha'', Dir []), (''-__notes'', Dir [])]"
  let ?found = "[FolderItem ''-__notes'' ''data/-__notes'', FolderItem ''-__Zoo'' ''data/-__Zoo'',
          FileItem ''Alpha'' ''data/Alpha'', FileItem ''beta'' ''data/beta'']"
  have h1: "\<not> path_exists example_tree ''nowhere''"
    by code_simp
  have h2: "resolve example_tree ''data/'' = Some (Dir ?es)"
    by code_simp
  have "map_sum id fst (scan_directory example_tree ?m ''data/'') = Inr ?found" by code_simp
  then obtain m' where h3: "scan_directory example_tree ?m ''data/'' = Inr (?found, m')"
    by (cases "scan_directory example_tree ?m ''data/''") auto
  from scan_sorted [of example_tree "''nowhere''" ?m ?es ?found m'] h1
  have a: "scan_directory example_tree ?m ''nowhere'' = Inr ([], ?m)" by blast
  from scan_sorted [of example_tree "''data/''" ?m ?es ?found m'] h3
  have "\<forall>i j. i < j \<and> j < length ?found \<longrightarrow>
         \<not> (item_type (?found ! i) = File \<and> item_type (?found ! j) = Folder) \<and>
         (item_type (?found ! i) = item_type (?found ! j) \<longrightarrow>
            lower (display_name (?found ! i)) \<le> lower (display_name (?found ! j)))" by blast
  from this [rule_format, of 2 3]
  have b: "lower (display_name (FileItem ''Alpha'' ''data/Alpha'')) \<le> lower (display_name (FileItem ''beta'' ''data/beta''))"
    by (simp add: FileItem_def)
  show ?thesis using h1 h2 a b h3 by simp
qed

lemma takeWhile_no_sep:
  assumes "CHR ''/'' \<notin> set b"
  shows "takeWhile (\<lambda>c. c \<noteq> CHR ''/'') (rev b @ ys) = rev b @ takeWhile (\<lambda>c. c \<noteq> CHR ''/'') ys"
  by (rule takeWhile_append2) (use assms in auto)

lemma basename_append_sep: "CHR ''/'' \<notin> set b \<Longrightarrow> basename (a @ CHR ''/'' # b) = b"
  by (simp add: basename_def takeWhile_no_sep)

lemma basename_plain: "CHR ''/'' \<notin> set b \<Longrightarrow> basename b = b"
proof -
  assume "CHR ''/'' \<notin> set b"
  then have "\<forall>x \<in> set (rev b). x \<noteq> CHR ''/''" by auto
  then have "takeWhile (\<lambda>c. c \<noteq> CHR ''/'') (rev b) = rev b"
    by (simp only: takeWhile_eq_all_conv)
  then show ?thesis unfolding basename_def by (simp only: rev_rev_ident)
qed

lemma basename_join:
  assumes "CHR ''/'' \<notin> set b"
  shows "basename (join a b) = b"
proof -
  have nb: "\<not> startswith b ''/''"
    using assms by (auto simp: startswith_def prefix_def)
  show ?thesis
  proof (cases "a = []")
    case True
    then show ?thesis using nb assms by (simp add: join_def basename_plain)
  next
    case False
    show ?thesis
    proof (cases "endswith a ''/''")
      case True
      then obtain a' where "a = a' @ ''/''" by (auto simp: endswith_def suffix_def)
      then show ?thesis using nb assms True
        by (simp add: join_def basename_append_sep)
    next
      case False
      then show ?thesis using nb assms \<open>a \<noteq> []\<close>
        by (simp add: join_def basename_append_sep)
    qed
  qed
qed

lemma RenameDialog_accept_Accepted:
  "RenameDialog_accept cur text = Accepted n \<longleftrightarrow>
     n = strip text \<and> n \<noteq> [] \<and> n \<noteq> cur \<and> (\<forall>c \<in> set invalid_chars. c \<notin> set n)"
proof
  assume "RenameDialog_accept cur text = Accepted n"
  then show "n = strip text \<and> n \<noteq> [] \<and> n \<noteq> cur \<and> (\<forall>c \<in> set invalid_chars. c \<notin> set n)"
    unfolding RenameDialog_accept_def Let_def by (auto split: if_splits)
next
  assume a: "n = strip text \<and> n \<noteq> [] \<and> n \<noteq> cur \<and> (\<forall>c \<in> set invalid_chars. c \<notin> set n)"
  then have "\<not> (\<exists>c \<in> set invalid_chars. c \<in> set (strip text))" by blast
  with a show "RenameDialog_accept cur text = Accepted n"
    unfolding RenameDialog_accept_def Let_def by auto
qed

lemma rename_item_True:
  assumes "rename_item fs item n = ((True, new_path), fs')"
  shows "new_path = join (dirname (full_path item))
            (if item_type item = Folder then ''-__'' @ n else n)"
    and "os_rename fs (full_path item) new_path = Inr fs'"
  using assms
  by (auto simp: rename_item_def Let_def split: if_splits sum.splits)

text \<open>
  Claim C9. When \<open>rename_item\<close> succeeds on a folder with a name that the rename dialog
  accepted, the path it returns is the folder's directory joined with the marker and
  the name, the raw name of that path is the marker followed by the name, and the
  path exists afterwards. Scanning the directory then returns an item with that raw
  name and that path, of kind folder, whose display name is exactly the accepted name.
\<close>

theorem folder_name_roundtrip:
  "RenameDialog_accept cur text = Accepted n \<and> item_type item = Folder \<and>
   rename_item fs item n = ((True, new_path), fs') \<longrightarrow>
     new_path = join (dirname (full_path item)) (''-__'' @ n) \<and>
     basename new_path = ''-__'' @ n \<and>
     path_exists fs' new_path \<and>
     (dirname (full_path item) \<noteq> [] \<longrightarrow>
        (\<exists>found m'. scan_directory fs' m (dirname (full_path item)) = Inr (found, m') \<and>
           (\<exists>x \<in> set found. name x = ''-__'' @ n \<and> full_path x = new_path \<and>
              item_type x = Folder \<and> display_name x = n)))"
proof
  assume a: "RenameDialog_accept cur text = Accepted n \<and> item_type item = Folder \<and>
   rename_item fs item n = ((True, new_path), fs')"
  let ?d = "dirname (full_path item)"
  let ?enc = "''-__'' @ n"
  from a have "\<forall>c \<in> set invalid_chars. c \<notin> set n"
    using RenameDialog_accept_Accepted by blast
  then have sep: "CHR ''/'' \<notin> set ?enc" by (simp add: invalid_chars_def)
  have ne: "?enc \<noteq> []" by simp
  from a rename_item_True [of fs item n new_path fs']
  have np: "new_path = join ?d ?enc" and mv: "os_rename fs (full_path item) new_path = Inr fs'"
    by auto
  have bn: "basename new_path = ?enc" unfolding np using sep by (rule basename_join)
  from os_rename_Inr [OF mv] obtain s dcs nd r where
    loc: "locate fs new_path = Some dcs" and
    put: "put_at (remove_at (root fs) s) dcs nd = Some r" and fs': "fs' = fs\<lparr>root := r\<rparr>"
    by blast
  have loc': "locate fs' new_path = Some dcs" using loc fs' by (simp add: locate_root_update)
  have "lookup r dcs = Some nd" using put by (rule lookup_put_at)
  then have ex: "path_exists fs' new_path"
    using loc' fs' by (simp add: path_exists_def resolve_def)
  have scan: "\<exists>found m'. scan_directory fs' m ?d = Inr (found, m') \<and>
           (\<exists>x \<in> set found. name x = ?enc \<and> full_path x = new_path \<and>
              item_type x = Folder \<and> display_name x = n)" if d: "?d \<noteq> []"
  proof -
    obtain cs where lc: "locate fs ?d = Some cs"
      using d by (cases "startswith ?d ''/''") (auto simp: locate_def)
    have "locate fs new_path = Some (cs @ [?enc])"
      unfolding np using sep ne lc by (rule locate_join)
    with loc have "dcs = cs @ [?enc]" by simp
    with put_at_parent [of "remove_at (root fs) s" cs ?enc nd r] put
    obtain es where es: "lookup r cs = Some (Dir es)" and mem: "(?enc, nd) \<in> set es" by blast
    have "resolve fs' ?d = Some (Dir es)"
      using lc es fs' by (simp add: resolve_def locate_root_update)
    from scan_directory_Dir [OF this, of m] obtain m' where
      sc: "scan_directory fs' m ?d =
             Inr (sort_key sort_key_of (map (\<lambda>e. classify (fst e, join ?d (fst e))) es), m')"
      by blast
    let ?x = "classify (?enc, join ?d ?enc)"
    have "?x \<in> set (sort_key sort_key_of (map (\<lambda>e. classify (fst e, join ?d (fst e))) es))"
      using mem by force
    moreover have "name ?x = ?enc \<and> full_path ?x = new_path \<and> item_type ?x = Folder \<and>
        display_name ?x = n"
      by (simp add: classify_def FolderItem_def np display_name_def startswith_def)
    ultimately show ?thesis using sc by blast
  qed
  show "new_path = join ?d ?enc \<and> basename new_path = ?enc \<and> path_exists fs' new_path \<and>
     (?d \<noteq> [] \<longrightarrow>
        (\<exists>found m'. scan_directory fs' m ?d = Inr (found, m') \<and>
           (\<exists>x \<in> set found. name x = ?enc \<and> full_path x = new_path \<and>
              item_type x = Folder \<and> display_name x = n)))"
    using np bn ex scan by blast
qed

theorem folder_name_roundtrip_witness:
  "RenameDialog_accept ''notes'' '' journal '' = Accepted ''journal'' \<and>
   item_type (FolderItem ''-__notes'' ''data/-__notes'') = Folder \<and>
   rename_item (tree example_app) (FolderItem ''-__notes'' ''data/-__notes'') ''journal'' =
     ((True, ''data/-__journal''),
      snd (rename_item (tree example_app) (FolderItem ''-__notes'' ''data/-__notes'') ''journal'')) \<and>
   dirname (full_path (FolderItem ''-__notes'' ''data/-__notes'')) = ''data'' \<and>
   basename ''data/-__journal'' = ''-__journal'' \<and>
   path_exists
     (snd (rename_item (tree example_app) (FolderItem ''-__notes'' ''data/-__notes'') ''journal''))
     ''data/-__journal'' \<and>
   (\<exists>found m'.
      scan_directory
        (snd (rename_item (tree example_app) (FolderItem ''-__notes'' ''data/-__notes'') ''journal''))
        \<lparr>items = Map.empty, current_path = ''data/''\<rparr> ''data'' = Inr (found, m') \<and>
      (\<exists>x \<in> set found. name x = ''-__journal'' \<and> full_path x = ''data/-__journal'' \<and>
         item_type x = Folder \<and> display_name x = ''journal''))"
proof -
  let ?f = "FolderItem ''-__notes'' ''data/-__notes''"
  let ?r = "rename_item (tree example_app) ?f ''journal''"
  let ?m = "\<lparr>items = Map.empty, current_path = ''data/''\<rparr>"
  have h1: "RenameDialog_accept ''notes'' '' journal '' = Accepted ''journal''" by code_simp
  have h2: "item_type ?f = Folder" by (simp add: FolderItem_def)
  have h3: "?r = ((True, ''data/-__journal''), snd ?r)" by code_simp
  have h4: "dirname (full_path ?f) = ''data''" by code_simp
  from folder_name_roundtrip [of "''notes''" "'' journal ''" "''journal''" ?f "tree example_app"
      "''data/-__journal''" "snd ?r" ?m] h1 h2 h3
  have c: "basename ''data/-__journal'' = ''-__'' @ ''journal'' \<and>
     path_exists (snd ?r) ''data/-__journal'' \<and>
     (dirname (full_path ?f) \<noteq> [] \<longrightarrow>
        (\<exists>found m'. scan_directory (snd ?r) ?m (dirname (full_path ?f)) = Inr (found, m') \<and>
           (\<exists>x \<in> set found. name x = ''-__'' @ ''journal'' \<and> full_path x = ''data/-__journal'' \<and>
              item_type x = Folder \<and> display_name x = ''journal'')))"
    by blast
  then have "\<exists>found m'. scan_directory (snd ?r) ?m ''data'' = Inr (found, m') \<and>
           (\<exists>x \<in> set found. name x = ''-__journal'' \<and> full_path x = ''data/-__journal'' \<and>
              item_type x = Folder \<and> display_name x = ''journal'')"
    using h4 by simp
  with c h1 h2 h3 h4 show ?thesis by simp
qed

section \<open>Rejected renames and moves\<close>

lemma dropWhile_keeps:
  "c \<in> set xs \<Longrightarrow> \<not> P c \<Longrightarrow> c \<in> set (dropWhile P xs)"
  by (induction xs) auto

lemma strip_keeps: "c \<in> set s \<Longrightarrow> \<not> isspace c \<Longrightarrow> c \<in> set (strip s)"
  using dropWhile_keeps [of c "rev (dropWhile isspace s)" isspace] dropWhile_keeps [of c s isspace]
  by (simp add: strip_def)

lemma invalid_not_space: "c \<in> set invalid_chars \<Longrightarrow> \<not> isspace c"
  by (auto simp: invalid_chars_def isspace_def)

lemma rename_item_collision:
  assumes "path_exists fs0
     (join (dirname (full_path item)) (if item_type item = Folder then ''-__'' @ n else n))"
  shows "rename_item fs0 item n = ((False, ''An item with this name already exists!''), fs0)"
  using assms by (simp add: rename_item_def Let_def split: if_splits)

text \<open>
  Claim C6, as amended. The rename dialog strips the entered text and then checks, in
  this order, that it is not empty, that it differs from the current display name and
  that it holds none of the nine forbidden characters. So an entry that is empty after
  stripping is refused with a warning; an entry equal to the current display name gives
  the informational "unchanged" result, whatever characters it holds; any other entry
  with a forbidden character is refused with a warning; and an accepted name whose
  destination exists is refused by \<open>rename_item\<close> with the collision message. In all
  four cases the file system and both indexes are left as they were.
\<close>

theorem rename_rejections:
  "(strip text = [] \<longrightarrow>
      mw_rename_item st item text = (Warning ''Please enter a name!'', st)) \<and>
   (strip text \<noteq> [] \<and> strip text = display_name item \<longrightarrow>
      mw_rename_item st item text = (Information ''Name unchanged!'', st)) \<and>
   (strip text \<noteq> display_name item \<and> (\<exists>c \<in> set invalid_chars. c \<in> set text) \<longrightarrow>
      mw_rename_item st item text = (Warning ''Name contains invalid characters!'', st)) \<and>
   (RenameDialog_accept (display_name item) text = Accepted n \<and>
    path_exists (tree st)
      (join (dirname (full_path item)) (if item_type item = Folder then ''-__'' @ n else n)) \<longrightarrow>
      mw_rename_item st item text = (Critical ''An item with this name already exists!'', st))"
proof (intro conjI impI)
  assume "strip text = []"
  then show "mw_rename_item st item text = (Warning ''Please enter a name!'', st)"
    by (simp add: mw_rename_item_def RenameDialog_accept_def)
next
  assume "strip text \<noteq> [] \<and> strip text = display_name item"
  then have "RenameDialog_accept (display_name item) text = Information ''Name unchanged!''"
    unfolding RenameDialog_accept_def Let_def by auto
  then show "mw_rename_item st item text = (Information ''Name unchanged!'', st)"
    by (simp add: mw_rename_item_def)
next
  assume a: "strip text \<noteq> display_name item \<and> (\<exists>c \<in> set invalid_chars. c \<in> set text)"
  then obtain c where c: "c \<in> set invalid_chars" "c \<in> set text" by blast
  then have in_strip: "c \<in> set (strip text)" by (simp add: strip_keeps invalid_not_space)
  then have ne: "strip text \<noteq> []" by auto
  have "\<exists>c \<in> set invalid_chars. c \<in> set (strip text)" using c(1) in_strip by blast
  then have "RenameDialog_accept (display_name item) text = Warning ''Name contains invalid characters!''"
    using a ne unfolding RenameDialog_accept_def Let_def by simp
  then show "mw_rename_item st item text = (Warning ''Name contains invalid characters!'', st)"
    by (simp add: mw_rename_item_def)
next
  assume a: "RenameDialog_accept (display_name item) text = Accepted n \<and>
    path_exists (tree st)
      (join (dirname (full_path item)) (if item_type item = Folder then ''-__'' @ n else n))"
  then have "rename_item (tree st) item n = ((False, ''An item with this name already exists!''), tree st)"
    by (intro rename_item_collision) simp
  with a show "mw_rename_item st item text = (Critical ''An item with this name already exists!'', st)"
    by (simp add: mw_rename_item_def)
qed

theorem rename_rejections_witness:
  "strip ''   '' = [] \<and>
   strip ''Alpha'' \<noteq> [] \<and> strip ''Alpha'' = display_name (FileItem ''Alpha'' ''data/Alpha'') \<and>
   strip ''Al*pha'' \<noteq> display_name (FileItem ''Alpha'' ''data/Alpha'') \<and>
   CHR ''*'' \<in> set invalid_chars \<and> CHR ''*'' \<in> set ''Al*pha'' \<and>
   RenameDialog_accept (display_name (FolderItem ''-__notes'' ''data/-__notes'')) '' Alpha'' =
     Accepted ''Alpha'' \<and>
   path_exists (tree (example_app\<lparr>tree := mount (Dir [(''data'', Dir [(''-__Alpha'', Dir []), (''-__notes'', Dir [])])])\<rparr>))
     (join (dirname ''data/-__notes'') ''-__Alpha'') \<and>
   mw_rename_item example_app (FileItem ''Alpha'' ''data/Alpha'') ''   '' =
     (Warning ''Please enter a name!'', example_app) \<and>
   mw_rename_item example_app (FileItem ''Alpha'' ''data/Alpha'') ''Alpha'' =
     (Information ''Name unchanged!'', example_app) \<and>
   mw_rename_item example_app (FileItem ''Alpha'' ''data/Alpha'') ''Al*pha'' =
     (Warning ''Name contains invalid characters!'', example_app) \<and>
   fst (mw_rename_item
     (example_app\<lparr>tree := mount (Dir [(''data'', Dir [(''-__Alpha'', Dir []), (''-__notes'', Dir [])])])\<rparr>)
     (FolderItem ''-__notes'' ''data/-__notes'') '' Alpha'') =
     Critical ''An item with this name already exists!''"
proof -
  let ?f = "FileItem ''Alpha'' ''data/Alpha''"
  let ?d = "FolderItem ''-__notes'' ''data/-__notes''"
  let ?st = "example_app\<lparr>tree := mount (Dir [(''data'', Dir [(''-__Alpha'', Dir []), (''-__notes'', Dir [])])])\<rparr>"
  have h1: "strip ''   '' = []" by code_simp
  have h2: "strip ''Alpha'' \<noteq> [] \<and> strip ''Alpha'' = display_name ?f" by code_simp
  have h3: "strip ''Al*pha'' \<noteq> display_name ?f" by code_simp
  have h4: "CHR ''*'' \<in> set invalid_chars" "CHR ''*'' \<in> set ''Al*pha''" by code_simp+
  have h5: "RenameDialog_accept (display_name ?d) '' Alpha'' = Accepted ''Alpha''" by code_simp
  have h6: "path_exists (tree ?st) (join (dirname ''data/-__notes'') ''-__Alpha'')" by code_simp
  have h6': "path_exists (tree ?st)
      (join (dirname (full_path ?d)) (if item_type ?d = Folder then ''-__'' @ ''Alpha'' else ''Alpha''))"
    by code_simp
  have h3': "strip ''Al*pha'' \<noteq> display_name ?f \<and> (\<exists>c \<in> set invalid_chars. c \<in> set ''Al*pha'')"
    using h3 h4 by blast
  note a = rename_rejections [of "''   ''" example_app ?f "''X''", THEN conjunct1, rule_format, OF h1]
  note b = rename_rejections [of "''Alpha''" example_app ?f "''X''", THEN conjunct2, THEN conjunct1, rule_format, OF h2]
  note c = rename_rejections [of "''Al*pha''" example_app ?f "''X''", THEN conjunct2, THEN conjunct2, THEN conjunct1, rule_format, OF h3']
  note d = rename_rejections [of "'' Alpha''" ?st ?d "''Alpha''", THEN conjunct2, THEN conjunct2, THEN conjunct2, rule_format, OF conjI [OF h5 h6']]
  have d': "fst (mw_rename_item ?st ?d '' Alpha'') = Critical ''An item with this name already exists!''"
    using d by simp
  show ?thesis using h1 h2 h3 h4 h5 h6 a b c d' by blast
qed

text \<open>
  Claim C6 as stated fails where the entered name is the current one: renaming the file
  \<open>Alpha\<close> to \<open>Alpha\<close>, whose destination exists, gives "unchanged" and not the collision
  failure, and renaming \<open>a:b\<close> to \<open>a:b\<close> gives "unchanged" and not the warning for a
  forbidden character.
\<close>

theorem rename_unchanged_counterexample:
  "path_exists (tree example_app) (join (dirname ''data/Alpha'') ''Alpha'') \<and>
   mw_rename_item example_app (FileItem ''Alpha'' ''data/Alpha'') ''Alpha'' =
     (Information ''Name unchanged!'', example_app) \<and>
   CHR '':'' \<in> set invalid_chars \<and> CHR '':'' \<in> set ''a:b'' \<and>
   mw_rename_item example_app (FileItem ''a:b'' ''data/a:b'') ''a:b'' =
     (Information ''Name unchanged!'', example_app)"
  by code_simp

lemma length_dirname: "length (dirname p) + length (basename p) \<le> length p"
proof -
  let ?P = "\<lambda>c. c \<noteq> CHR ''/''"
  let ?head = "rev (dropWhile ?P (rev p))"
  have "length (takeWhile ?P (rev p)) + length (dropWhile ?P (rev p)) = length (rev p)"
    by (metis length_append takeWhile_dropWhile_id)
  then have eq: "length ?head + length (basename p) = length p"
    by (simp add: basename_def)
  have "length (rstrip_sep ?head) \<le> length ?head"
    by (simp add: rstrip_sep_def length_dropWhile_le)
  then have "length (dirname p) \<le> length ?head"
    by (simp add: dirname_def Let_def)
  with eq show ?thesis by linarith
qed

text \<open>
  The guard of the move dialog compares texts: it refuses a folder whose selected
  target is spelled as the folder's own path or as that path followed by a separator
  and more.
\<close>

lemma move_dialog_refuses_textual_descendant:
  "item_type item = Folder \<and> basename (full_path item) \<noteq> [] \<and>
   (T = full_path item \<or> (\<exists>r. T = full_path item @ ''/'' @ r)) \<longrightarrow>
     mw_move_item st item T =
       (Warning ''Cannot move a folder to its own subdirectory!'', st)"
proof
  assume a: "item_type item = Folder \<and> basename (full_path item) \<noteq> [] \<and>
   (T = full_path item \<or> (\<exists>r. T = full_path item @ ''/'' @ r))"
  then have pre: "prefix (full_path item) T" by (auto simp: prefix_def)
  then have len: "length (full_path item) \<le> length T" by (rule prefix_length_le)
  have "length (dirname (full_path item)) < length (full_path item)"
    using length_dirname [of "full_path item"] a by (cases "basename (full_path item)") auto
  with len have ne: "T \<noteq> dirname (full_path item)" by auto
  have "full_path item \<noteq> []" using a by (auto simp: basename_def)
  with len have "T \<noteq> []" by auto
  with ne pre a
  have "MoveDialog_accept (full_path item) (item_type item) T =
          Warning ''Cannot move a folder to its own subdirectory!''"
    by (simp add: MoveDialog_accept_def startswith_def)
  then show "mw_move_item st item T =
       (Warning ''Cannot move a folder to its own subdirectory!'', st)"
    by (simp add: mw_move_item_def)
qed

text \<open>
  What the tree view delivers is an absolute path, whereas the path of an item is
  relative to the working directory (it descends from \<open>data/\<close>): for such a pair the
  guard never gives its warning.
\<close>

lemma filePath_absolute: "p \<noteq> [] \<Longrightarrow> startswith (filePath fs p) ''/''"
proof -
  assume "p \<noteq> []"
  then obtain cs where cs: "locate fs p = Some cs"
    by (cases "startswith p ''/''") (auto simp: locate_def)
  show ?thesis
    by (cases cs) (auto simp: filePath_def cs startswith_def)
qed

lemma guard_misses_absolute:
  assumes "startswith T ''/''" and "p \<noteq> []" and "\<not> startswith p ''/''"
  shows "MoveDialog_accept p k T \<noteq> Warning ''Cannot move a folder to its own subdirectory!''"
proof -
  obtain x xs where p: "p = x # xs" using assms(2) by (cases p) auto
  obtain ts where T: "T = CHR ''/'' # ts" using assms(1) by (auto simp: startswith_def prefix_def)
  have "x \<noteq> CHR ''/''" using assms(3) by (auto simp: p startswith_def)
  then have "\<not> startswith T p" by (auto simp: p T startswith_def)
  then show ?thesis by (simp add: MoveDialog_accept_def Let_def T)
qed

lemma tree_view_move_never_warned:
  assumes "full_path item \<noteq> []" and "\<not> startswith (full_path item) ''/''" and "q \<noteq> []"
  shows "fst (mw_move_item st item (filePath fs q)) \<noteq>
           Warning ''Cannot move a folder to its own subdirectory!''"
proof -
  let ?T = "filePath fs q"
  let ?W = "Warning ''Cannot move a folder to its own subdirectory!''"
  have g: "MoveDialog_accept (full_path item) (item_type item) ?T \<noteq> ?W"
    using filePath_absolute [OF assms(3)] assms(1,2) by (rule guard_misses_absolute)
  show ?thesis
  proof (cases "MoveDialog_accept (full_path item) (item_type item) ?T")
    case (Accepted sel)
    then show ?thesis
      by (cases "move_item (tree st) item sel") (simp add: mw_move_item_def Let_def)
  qed (use g in \<open>simp_all add: mw_move_item_def\<close>)
qed

text \<open>
  Claim C4. The folder \<open>-__notes\<close> is moved into itself and into the directory \<open>Diary\<close>
  below it, the target being selected in the tree view. The dialog accepts both
  targets; the file system manager has no check of its own, and \<open>shutil.move\<close>
  refuses the move, which the main window reports as a move error. Nothing is moved,
  but the result is not the warning of the validation.
\<close>

theorem move_into_itself_not_validated:
  "filePath (tree example_app) ''data/-__notes'' = ''/home/user/silverlock/data/-__notes'' \<and>
   filePath (tree example_app) ''data/-__notes/Diary'' =
     ''/home/user/silverlock/data/-__notes/Diary'' \<and>
   MoveDialog_accept ''data/-__notes'' Folder (filePath (tree example_app) ''data/-__notes'') =
     Accepted ''/home/user/silverlock/data/-__notes'' \<and>
   MoveDialog_accept ''data/-__notes'' Folder (filePath (tree example_app) ''data/-__notes/Diary'') =
     Accepted ''/home/user/silverlock/data/-__notes/Diary'' \<and>
   mw_move_item example_app (FolderItem ''-__notes'' ''data/-__notes'')
     (filePath (tree example_app) ''data/-__notes'') =
     (Critical ''Move error: ShutilError'', example_app) \<and>
   mw_move_item example_app (FolderItem ''-__notes'' ''data/-__notes'')
     (filePath (tree example_app) ''data/-__notes/Diary'') =
     (Critical ''Move error: ShutilError'', example_app) \<and>
   move_item (tree example_app) (FolderItem ''-__notes'' ''data/-__notes'') ''data/-__notes/Diary'' =
     ((False, ''Move error: ShutilError''), tree example_app)"
  by code_simp

section \<open>Index synchronisation\<close>

lemma history_update_path_all2:
  "list_all2 (\<lambda>r r'. if h_full_path r = old then h_full_path r' = new \<and> last_accessed r' = last_accessed r
                      else r' = r)
     h (history_update_path h old new)"
  by (simp add: history_update_path_def list_all2_map2 list_all2_same)

lemma pin_update_path_all2:
  "list_all2 (\<lambda>r r'. if p_full_path r = old then p_full_path r' = new \<and> pinned_at r' = pinned_at r
                      else r' = r)
     ps (pin_update_path ps old new)"
  by (simp add: pin_update_path_def list_all2_map2 list_all2_same)

lemma RenameDialog_accept_not_Completed: "RenameDialog_accept c t \<noteq> Completed"
  by (simp add: RenameDialog_accept_def Let_def)

lemma MoveDialog_accept_not_Completed: "MoveDialog_accept p k t \<noteq> Completed"
  by (simp add: MoveDialog_accept_def Let_def)

lemma mw_rename_item_Completed:
  assumes "mw_rename_item st item text = (Completed, st')"
  shows "\<exists>new. history_manager st' = history_update_path (history_manager st) (full_path item) new \<and>
           pin_manager st' = (if item_type item = File
                              then pin_update_path (pin_manager st) (full_path item) new
                              else pin_manager st) \<and>
           new = join (dirname (full_path item))
                   (if item_type item = Folder then ''-__'' @ strip text else strip text)"
proof (cases "RenameDialog_accept (display_name item) text")
  case (Accepted n)
  then have n: "n = strip text"
    unfolding RenameDialog_accept_def Let_def by (auto split: if_splits)
  obtain res fs' where r: "rename_item (tree st) item n = (res, fs')" by (cases "rename_item (tree st) item n")
  have ok: "fst res" using assms Accepted r by (auto simp: mw_rename_item_def Let_def split: if_splits)
  have new: "snd res = join (dirname (full_path item))
                   (if item_type item = Folder then ''-__'' @ n else n)"
    using r ok by (auto simp: rename_item_def Let_def split: if_splits sum.splits)
  show ?thesis using assms Accepted r ok new n
    by (auto simp: mw_rename_item_def Let_def)
qed (use assms RenameDialog_accept_not_Completed [of "display_name item"] in
      \<open>auto simp: mw_rename_item_def\<close>)

lemma mw_move_item_Completed:
  assumes "mw_move_item st item selected_path = (Completed, st')"
  shows "\<exists>new. history_manager st' = history_update_path (history_manager st) (full_path item) new \<and>
           pin_manager st' = (if item_type item = File
                              then pin_update_path (pin_manager st) (full_path item) new
                              else pin_manager st) \<and>
           new = join (if selected_path = [] then ''data'' else selected_path)
                   (basename (full_path item))"
proof (cases "MoveDialog_accept (full_path item) (item_type item) selected_path")
  case (Accepted sel)
  then have n: "sel = (if selected_path = [] then ''data'' else selected_path)"
    unfolding MoveDialog_accept_def Let_def by (auto split: if_splits)
  obtain res fs' where r: "move_item (tree st) item sel = (res, fs')" by (cases "move_item (tree st) item sel")
  have ok: "fst res" using assms Accepted r by (auto simp: mw_move_item_def Let_def split: if_splits)
  have new: "snd res = join sel (basename (full_path item))"
    using r ok by (auto simp: move_item_def Let_def split: if_splits sum.splits)
  show ?thesis using assms Accepted r ok new n
    by (auto simp: mw_move_item_def Let_def)
qed (use assms MoveDialog_accept_not_Completed [of "full_path item" "item_type item"] in
      \<open>auto simp: mw_move_item_def\<close>)

text \<open>
  Claim C1, as amended. After a successful rename or move, every record of the recency
  index whose path equals the item's old path carries the new path, and every other
  record is unchanged; the pin index is rewritten in the same way when the item is a
  file and is left as it was when the item is a folder. The rewrite is by equality of
  paths, so a record of a file inside a renamed or moved folder keeps its old path.
\<close>

theorem path_update_exact_match:
  "(mw_rename_item st item text = (Completed, st') \<and>
      new = join (dirname (full_path item))
              (if item_type item = Folder then ''-__'' @ strip text else strip text)
    \<or> mw_move_item st item selected_path = (Completed, st') \<and>
      new = join (if selected_path = [] then ''data'' else selected_path)
              (basename (full_path item))) \<longrightarrow>
   list_all2 (\<lambda>r r'. if h_full_path r = full_path item
                      then h_full_path r' = new \<and> last_accessed r' = last_accessed r
                      else r' = r)
     (history_manager st) (history_manager st') \<and>
   (item_type item = File \<longrightarrow>
      list_all2 (\<lambda>r r'. if p_full_path r = full_path item
                         then p_full_path r' = new \<and> pinned_at r' = pinned_at r
                         else r' = r)
        (pin_manager st) (pin_manager st')) \<and>
   (item_type item = Folder \<longrightarrow> pin_manager st' = pin_manager st)"
proof
  assume a: "mw_rename_item st item text = (Completed, st') \<and>
      new = join (dirname (full_path item))
              (if item_type item = Folder then ''-__'' @ strip text else strip text)
    \<or> mw_move_item st item selected_path = (Completed, st') \<and>
      new = join (if selected_path = [] then ''data'' else selected_path)
              (basename (full_path item))"
  have "history_manager st' = history_update_path (history_manager st) (full_path item) new \<and>
           pin_manager st' = (if item_type item = File
                              then pin_update_path (pin_manager st) (full_path item) new
                              else pin_manager st)"
    using a mw_rename_item_Completed mw_move_item_Completed
    by blast
  then show "list_all2 (\<lambda>r r'. if h_full_path r = full_path item
                      then h_full_path r' = new \<and> last_accessed r' = last_accessed r
                      else r' = r)
     (history_manager st) (history_manager st') \<and>
   (item_type item = File \<longrightarrow>
      list_all2 (\<lambda>r r'. if p_full_path r = full_path item
                         then p_full_path r' = new \<and> pinned_at r' = pinned_at r
                         else r' = r)
        (pin_manager st) (pin_manager st')) \<and>
   (item_type item = Folder \<longrightarrow> pin_manager st' = pin_manager st)"
    using history_update_path_all2 [of "full_path item" new "history_manager st"]
      pin_update_path_all2 [of "full_path item" new "pin_manager st"]
    by (cases "item_type item") auto
qed

theorem path_update_exact_match_witness:
  "mw_rename_item example_app (FileItem ''Alpha'' ''data/Alpha'') ''Alph'' =
     (Completed, snd (mw_rename_item example_app (FileItem ''Alpha'' ''data/Alpha'') ''Alph'')) \<and>
   ''data/Alph'' = join (dirname (full_path (FileItem ''Alpha'' ''data/Alpha'')))
      (if item_type (FileItem ''Alpha'' ''data/Alpha'') = Folder then ''-__'' @ strip ''Alph''
       else strip ''Alph'') \<and>
   item_type (FileItem ''Alpha'' ''data/Alpha'') = File \<and>
   list_all2 (\<lambda>r r'. if h_full_path r = full_path (FileItem ''Alpha'' ''data/Alpha'')
                      then h_full_path r' = ''data/Alph'' \<and> last_accessed r' = last_accessed r
                      else r' = r)
     (history_manager example_app)
     (history_manager (snd (mw_rename_item example_app (FileItem ''Alpha'' ''data/Alpha'') ''Alph''))) \<and>
   list_all2 (\<lambda>r r'. if p_full_path r = full_path (FileItem ''Alpha'' ''data/Alpha'')
                      then p_full_path r' = ''data/Alph'' \<and> pinned_at r' = pinned_at r
                      else r' = r)
     (pin_manager example_app)
     (pin_manager (snd (mw_rename_item example_app (FileItem ''Alpha'' ''data/Alpha'') ''Alph'')))"
proof -
  let ?f = "FileItem ''Alpha'' ''data/Alpha''"
  let ?S = "snd (mw_rename_item example_app ?f ''Alph'')"
  have "fst (mw_rename_item example_app ?f ''Alph'') = Completed" by code_simp
  then have h1: "mw_rename_item example_app ?f ''Alph'' = (Completed, ?S)"
    by (metis prod.collapse)
  have h2: "''data/Alph'' = join (dirname (full_path ?f))
      (if item_type ?f = Folder then ''-__'' @ strip ''Alph'' else strip ''Alph'')"
    by code_simp
  have h3: "item_type ?f = File" by (simp add: FileItem_def)
  from path_update_exact_match [of example_app ?f "''Alph''" ?S "''data/Alph''" "[]"] h1 h2 h3
  show ?thesis by blast
qed

text \<open>
  Claim C1 as stated fails: renaming the folder \<open>-__notes\<close> to \<open>journal\<close> succeeds and
  moves the file \<open>Diary\<close> with it, but the history record and the pin of that file
  keep the path below the old folder name.
\<close>

theorem folder_rename_counterexample:
  "fst (mw_rename_item example_app (FolderItem ''-__notes'' ''data/-__notes'') ''journal'') = Completed \<and>
   path_exists (tree (snd (mw_rename_item example_app (FolderItem ''-__notes'' ''data/-__notes'') ''journal'')))
     ''data/-__journal/Diary'' \<and>
   \<not> path_exists (tree (snd (mw_rename_item example_app (FolderItem ''-__notes'' ''data/-__notes'') ''journal'')))
     ''data/-__notes/Diary'' \<and>
   startswith ''data/-__notes/Diary'' (''data/-__notes'' @ ''/'') \<and>
   map h_full_path (history_manager example_app) = [''data/-__notes/Diary'', ''data/Alpha''] \<and>
   map h_full_path
     (history_manager (snd (mw_rename_item example_app (FolderItem ''-__notes'' ''data/-__notes'') ''journal''))) =
     [''data/-__notes/Diary'', ''data/Alpha''] \<and>
   map p_full_path
     (pin_manager (snd (mw_rename_item example_app (FolderItem ''-__notes'' ''data/-__notes'') ''journal''))) =
     [''data/-__notes/Diary'']"
  by code_simp

text \<open>
  Claim C3, as amended. After a successful delete the recency index holds no record
  with the deleted path and keeps every other record; the pin index loses the records
  with the deleted path when the item is a file, and is left as it was when the item is
  a folder. Records of paths below a deleted folder are kept.
\<close>

theorem delete_removes_exact_path:
  "mw_delete_item st item True = (Completed, st') \<longrightarrow>
     history_manager st' = filter (\<lambda>r. h_full_path r \<noteq> full_path item) (history_manager st) \<and>
     full_path item \<notin> h_full_path ` set (history_manager st') \<and>
     (item_type item = File \<longrightarrow>
        pin_manager st' = filter (\<lambda>r. p_full_path r \<noteq> full_path item) (pin_manager st) \<and>
        full_path item \<notin> p_full_path ` set (pin_manager st')) \<and>
     (item_type item = Folder \<longrightarrow> pin_manager st' = pin_manager st)"
  by (cases "delete_item (tree st) item")
    (auto simp: mw_delete_item_def remove_item_def unpin_file_def split: if_splits)

theorem delete_removes_exact_path_witness:
  "mw_delete_item example_app (FileItem ''Alpha'' ''data/Alpha'') True =
     (Completed, snd (mw_delete_item example_app (FileItem ''Alpha'' ''data/Alpha'') True)) \<and>
   item_type (FileItem ''Alpha'' ''data/Alpha'') = File \<and>
   full_path (FileItem ''Alpha'' ''data/Alpha'') \<in> h_full_path ` set (history_manager example_app) \<and>
   full_path (FileItem ''Alpha'' ''data/Alpha'') \<notin> h_full_path `
     set (history_manager (snd (mw_delete_item example_app (FileItem ''Alpha'' ''data/Alpha'') True))) \<and>
   full_path (FileItem ''Alpha'' ''data/Alpha'') \<notin> p_full_path `
     set (pin_manager (snd (mw_delete_item example_app (FileItem ''Alpha'' ''data/Alpha'') True)))"
proof -
  let ?f = "FileItem ''Alpha'' ''data/Alpha''"
  let ?S = "snd (mw_delete_item example_app ?f True)"
  have "fst (mw_delete_item example_app ?f True) = Completed" by code_simp
  then have h1: "mw_delete_item example_app ?f True = (Completed, ?S)"
    by (metis prod.collapse)
  have h3: "item_type ?f = File" by (simp add: FileItem_def)
  have h4: "full_path ?f \<in> h_full_path ` set (history_manager example_app)"
    by (simp add: example_app_def FileItem_def)
  from delete_removes_exact_path [of example_app ?f ?S] h1 h3 h4
  show ?thesis by blast
qed

text \<open>
  Claim C3 as stated fails: deleting the folder \<open>-__notes\<close> succeeds, and the history
  record and the pin of the file \<open>Diary\<close> inside it remain.
\<close>

theorem folder_delete_counterexample:
  "fst (mw_delete_item example_app (FolderItem ''-__notes'' ''data/-__notes'') True) = Completed \<and>
   \<not> path_exists (tree (snd (mw_delete_item example_app (FolderItem ''-__notes'' ''data/-__notes'') True)))
     ''data/-__notes'' \<and>
   startswith ''data/-__notes/Diary'' (''data/-__notes'' @ ''/'') \<and>
   map h_full_path
     (history_manager (snd (mw_delete_item example_app (FolderItem ''-__notes'' ''data/-__notes'') True))) =
     [''data/-__notes/Diary'', ''data/Alpha''] \<and>
   map p_full_path
     (pin_manager (snd (mw_delete_item example_app (FolderItem ''-__notes'' ''data/-__notes'') True))) =
     [''data/-__notes/Diary'']"
  by code_simp

section \<open>Credentials\<close>













text \<open>
  A credential that loads leads to the login window, and the login window opens the
  content only for a password that verifies.
\<close>

lemma login_window_when_loaded:
  "load_password_hash (tree st) f = Some h \<Longrightarrow>
     open_file_with_password_check st f now = (LoginWindow h, st)"
  by (simp add: open_file_with_password_check_def)

lemma authenticate_opens_only_verified:
  "fst (authenticate kdf st f h entered now) = Opened p \<Longrightarrow>
     verify_password kdf h entered = Inr True"
  by (auto simp: authenticate_def split: sum.splits bool.splits)

text \<open>
  Claim C2. The credential file of \<open>Secret\<close> exists and cannot be read: loading it raises,
  \<open>load_password_hash\<close> returns \<open>None\<close> as for a missing file, and the file is opened
  and entered in the history without any password being asked for.
\<close>

theorem unreadable_credential_opens:
  "path_exists (tree locked_app) (password_file_path (FileItem ''Secret'' ''data/Secret'')) \<and>
   load_hashed_password (tree locked_app) (password_file_path (FileItem ''Secret'' ''data/Secret'')) =
     Inl PermissionError \<and>
   load_password_hash (tree locked_app) (FileItem ''Secret'' ''data/Secret'') = None \<and>
   fst (open_file_with_password_check locked_app (FileItem ''Secret'' ''data/Secret'')
          ''2024-06-01T08:00:00'') = Opened ''data/Secret/content.html'' \<and>
   map h_full_path (history_manager (snd (open_file_with_password_check locked_app
          (FileItem ''Secret'' ''data/Secret'') ''2024-06-01T08:00:00''))) = [''data/Secret'']"
  by code_simp

end
